theory Spec2Isabelle
  imports Main "HOL-Library.AList"
begin


section \<open>Python strings\<close>

text \<open>
  A Python \<open>str\<close> is modelled as a \<open>string\<close>; a \<open>char\<close> stands for the code point
  of the same number (0 to 255). The helpers below are the \<open>str\<close> methods the analyzer
  and \<open>urllib.parse\<close> call.
\<close>

definition isspace :: "char \<Rightarrow> bool" where
  \<comment> \<open>\<open>str.isspace\<close> on one character: the white space among the code points below 256.\<close>
  "isspace c \<longleftrightarrow>
     c \<in> set [CHR 0x09, CHR 0x0A, CHR 0x0B, CHR 0x0C, CHR 0x0D, CHR 0x1C, CHR 0x1D,
               CHR 0x1E, CHR 0x1F, CHR 0x20, CHR 0x85, CHR 0xA0]"

definition strip :: "string \<Rightarrow> string" where
  \<comment> \<open>\<open>s.strip()\<close>\<close>
  "strip s = rev (dropWhile isspace (rev (dropWhile isspace s)))"

definition startswith :: "string \<Rightarrow> string \<Rightarrow> bool" where
  \<comment> \<open>\<open>s.startswith(p)\<close>\<close>
  "startswith s p \<longleftrightarrow> take (length p) s = p"

definition endswith :: "string \<Rightarrow> string \<Rightarrow> bool" where
  \<comment> \<open>\<open>s.endswith(p)\<close>\<close>
  "endswith s p \<longleftrightarrow> length p \<le> length s \<and> drop (length s - length p) s = p"

fun split_on :: "char \<Rightarrow> string \<Rightarrow> string list" where
  \<comment> \<open>\<open>s.split(c)\<close>: empty pieces are kept, and the empty string gives one empty piece.\<close>
  "split_on c [] = [[]]"
| "split_on c (x # xs) =
     (if x = c then [] # split_on c xs
      else (case split_on c xs of [] \<Rightarrow> [[x]] | w # ws \<Rightarrow> (x # w) # ws))"

fun split_ws :: "string \<Rightarrow> string \<Rightarrow> string list" where
  \<comment> \<open>\<open>s.split()\<close> is \<open>split_ws s []\<close>: the maximal runs of characters that are not
      white space; the second argument is the run being read.\<close>
  "split_ws [] cur = (if cur = [] then [] else [cur])"
| "split_ws (c # cs) cur =
     (if isspace c then (if cur = [] then split_ws cs [] else cur # split_ws cs [])
      else split_ws cs (cur @ [c]))"

fun join :: "string \<Rightarrow> string list \<Rightarrow> string" where
  \<comment> \<open>\<open>sep.join(xs)\<close>\<close>
  "join sep [] = []"
| "join sep [x] = x"
| "join sep (x # y # ys) = x @ sep @ join sep (y # ys)"

definition partition_at :: "char \<Rightarrow> string \<Rightarrow> string \<times> string" where
  \<comment> \<open>\<open>s.split(c, 1)\<close> for a string that contains \<open>c\<close>: the text before the first \<open>c\<close>
      and the text after it; for a string without \<open>c\<close> the whole string and the empty one,
      as the first and last component of \<open>s.partition(c)\<close>.\<close>
  "partition_at c s = (takeWhile (\<lambda>x. x \<noteq> c) s, drop 1 (dropWhile (\<lambda>x. x \<noteq> c) s))"

definition lower_char :: "char \<Rightarrow> char" where
  "lower_char c =
     (let n = (of_char c :: nat) in if 65 \<le> n \<and> n \<le> 90 then char_of (n + 32) else c)"

definition lower :: "string \<Rightarrow> string" where
  \<comment> \<open>\<open>s.lower()\<close>; it is only applied to strings of \<open>scheme_chars\<close>.\<close>
  "lower s = map lower_char s"

definition isascii :: "string \<Rightarrow> bool" where
  \<comment> \<open>\<open>s.isascii()\<close>: every code point is below 128; true of the empty string.\<close>
  "isascii s \<longleftrightarrow> (\<forall>c \<in> set s. (of_char c :: nat) < 128)"

definition isascii_alpha :: "char \<Rightarrow> bool" where
  \<comment> \<open>\<open>c.isascii() and c.isalpha()\<close>\<close>
  "isascii_alpha c \<longleftrightarrow>
     (let n = (of_char c :: nat) in (65 \<le> n \<and> n \<le> 90) \<or> (97 \<le> n \<and> n \<le> 122))"


section \<open>The URL library: \<open>urllib.parse\<close>\<close>

text \<open>
  The analyzer resolves and classifies URLs with \<open>urljoin\<close> and \<open>urlparse\<close> of the Python
  standard library. They are modelled after \<open>urllib/parse.py\<close> of CPython 3.12, statement
  by statement, for \<open>str\<close> arguments and \<open>allow_fragments=True\<close>.

  \<open>urlsplit\<close> raises \<open>ValueError\<close> in two places, and the exception is the \<open>Inl\<close>
  branch of its result: on a malformed bracketed host, and in \<open>_checknetloc\<close> on a netloc
  that is not ASCII and whose NFKC normal form holds one of the characters \<open>/?#@:\<close>.
  Two functions that these checks call are not modelled but taken as given, as the fields
  of the parameter \<open>lib\<close>, so that every result below holds whatever they compute:
  \<open>_check_bracketed_host\<close>, which validates an IPv6 or IPvFuture literal with the
  \<open>ipaddress\<close> module (the field is true where it accepts the host), and
  \<open>unicodedata.normalize('NFKC', s)\<close>. The normal form is only compared with \<open>s\<close> and
  searched for the five characters.
\<close>

datatype error = ValueError | KeyError

record stdlib =
  check_bracketed_host :: "string \<Rightarrow> bool"
  nfkc :: "string \<Rightarrow> string"

definition uses_relative :: "string list" where
  "uses_relative = ['''', ''ftp'', ''http'', ''gopher'', ''nntp'', ''imap'',
                    ''wais'', ''file'', ''https'', ''shttp'', ''mms'',
                    ''prospero'', ''rtsp'', ''rtsps'', ''rtspu'', ''sftp'',
                    ''svn'', ''svn+ssh'', ''ws'', ''wss'']"

definition uses_netloc :: "string list" where
  "uses_netloc = ['''', ''ftp'', ''http'', ''gopher'', ''nntp'', ''telnet'',
                  ''imap'', ''wais'', ''file'', ''mms'', ''https'', ''shttp'',
                  ''snews'', ''prospero'', ''rtsp'', ''rtsps'', ''rtspu'', ''rsync'',
                  ''svn'', ''svn+ssh'', ''sftp'', ''nfs'', ''git'', ''git+ssh'',
                  ''ws'', ''wss'', ''itms-services'']"

definition uses_params :: "string list" where
  "uses_params = ['''', ''ftp'', ''hdl'', ''prospero'', ''http'', ''imap'',
                  ''https'', ''shttp'', ''rtsp'', ''rtsps'', ''rtspu'', ''sip'',
                  ''sips'', ''mms'', ''sftp'', ''tel'']"

definition scheme_chars :: "string" where
  "scheme_chars = ''abcdefghijklmnopqrstuvwxyzABCDEFGHIJKLMNOPQRSTUVWXYZ0123456789+-.''"

definition c0_control_or_space :: "char \<Rightarrow> bool" where
  \<comment> \<open>membership in \<open>_WHATWG_C0_CONTROL_OR_SPACE\<close>\<close>
  "c0_control_or_space c \<longleftrightarrow> (of_char c :: nat) \<le> 32"

definition unsafe_url_byte :: "char \<Rightarrow> bool" where
  \<comment> \<open>membership in \<open>_UNSAFE_URL_BYTES_TO_REMOVE\<close>\<close>
  "unsafe_url_byte c \<longleftrightarrow> c \<in> set [CHR 0x09, CHR 0x0D, CHR 0x0A]"

record split_result =
  scheme :: string
  netloc :: string
  path :: string
  query :: string
  fragment :: string

record parse_result = split_result +
  params :: string

definition splitnetloc :: "string \<Rightarrow> string \<times> string" where
  \<comment> \<open>\<open>_splitnetloc(url, 2)\<close>: the text from index 2 up to the first of \<open>/?#\<close>, and
      the rest.\<close>
  "splitnetloc url =
     (let r = drop 2 url
      in (takeWhile (\<lambda>c. c \<notin> set ''/?#'') r, dropWhile (\<lambda>c. c \<notin> set ''/?#'') r))"

definition rpartition_last :: "char \<Rightarrow> string \<Rightarrow> string" where
  \<comment> \<open>\<open>s.rpartition(c)[2]\<close>: the text after the last \<open>c\<close>, or all of \<open>s\<close>.\<close>
  "rpartition_last c s = rev (takeWhile (\<lambda>x. x \<noteq> c) (rev s))"

definition check_bracketed_netloc :: "stdlib \<Rightarrow> string \<Rightarrow> bool" where
  \<comment> \<open>\<open>_check_bracketed_netloc\<close>: false where it raises \<open>ValueError\<close>.\<close>
  "check_bracketed_netloc lib nl =
     (let hostname_and_port = rpartition_last (CHR ''@'') nl;
          before_bracket = fst (partition_at (CHR ''['') hostname_and_port);
          bracketed = snd (partition_at (CHR ''['') hostname_and_port)
      in if CHR ''['' \<in> set hostname_and_port then
           (if before_bracket \<noteq> [] then False
            else let hostname = fst (partition_at (CHR '']'') bracketed);
                     port = snd (partition_at (CHR '']'') bracketed)
                 in if port \<noteq> [] \<and> \<not> startswith port '':'' then False
                    else check_bracketed_host lib hostname)
         else check_bracketed_host lib (fst (partition_at (CHR '':'') hostname_and_port)))"

definition clean_url :: "string \<Rightarrow> string" where
  \<comment> \<open>\<open>url.lstrip(_WHATWG_C0_CONTROL_OR_SPACE)\<close>, then the removal of tab, carriage return and
      line feed.\<close>
  "clean_url url = filter (\<lambda>c. \<not> unsafe_url_byte c) (dropWhile c0_control_or_space url)"

definition clean_scheme :: "string \<Rightarrow> string" where
  \<comment> \<open>\<open>scheme.strip(_WHATWG_C0_CONTROL_OR_SPACE)\<close>, then the same removal.\<close>
  "clean_scheme sch =
     filter (\<lambda>c. \<not> unsafe_url_byte c)
       (rev (dropWhile c0_control_or_space (rev (dropWhile c0_control_or_space sch))))"

definition has_scheme :: "string \<Rightarrow> bool" where
  \<comment> \<open>the test of \<open>urlsplit\<close> for a scheme: a colon that is not the first character, an ASCII
      letter first, and only \<open>scheme_chars\<close> before the colon.\<close>
  "has_scheme url \<longleftrightarrow>
     CHR '':'' \<in> set url \<and> takeWhile (\<lambda>c. c \<noteq> CHR '':'') url \<noteq> [] \<and> isascii_alpha (hd url)
     \<and> (\<forall>c \<in> set (takeWhile (\<lambda>c. c \<noteq> CHR '':'') url). c \<in> set scheme_chars)"

definition split_scheme :: "string \<Rightarrow> string \<Rightarrow> string \<times> string" where
  \<comment> \<open>the scheme and the rest of the URL; the second argument is the default scheme.\<close>
  "split_scheme url sch =
     (if has_scheme url
      then (lower (takeWhile (\<lambda>c. c \<noteq> CHR '':'') url),
            drop (length (takeWhile (\<lambda>c. c \<noteq> CHR '':'') url) + 1) url)
      else (sch, url))"

definition netloc_ok :: "stdlib \<Rightarrow> string \<Rightarrow> bool" where
  \<comment> \<open>false where \<open>urlsplit\<close> raises \<open>ValueError\<close> for the brackets of the netloc: one
      bracket without the other, or both and a host that \<open>_check_bracketed_netloc\<close>
      rejects.\<close>
  "netloc_ok lib nl \<longleftrightarrow>
     \<not> ((CHR ''['' \<in> set nl \<and> CHR '']'' \<notin> set nl) \<or> (CHR '']'' \<in> set nl \<and> CHR ''['' \<notin> set nl))
     \<and> (CHR ''['' \<in> set nl \<and> CHR '']'' \<in> set nl \<longrightarrow> check_bracketed_netloc lib nl)"

definition checknetloc :: "stdlib \<Rightarrow> string \<Rightarrow> bool" where
  \<comment> \<open>\<open>_checknetloc\<close>: false where it raises \<open>ValueError\<close>. The characters \<open>@:#?\<close> are
      removed from the netloc before it is normalised.\<close>
  "checknetloc lib nl \<longleftrightarrow>
     (if nl = [] \<or> isascii nl then True
      else let n = filter (\<lambda>c. c \<notin> set ''@:#?'') nl;
               netloc2 = nfkc lib n
           in n = netloc2 \<or> (\<forall>c \<in> set ''/?#@:''. c \<notin> set netloc2))"

definition split_at_first :: "char \<Rightarrow> string \<Rightarrow> string \<times> string" where
  \<comment> \<open>\<open>if c in url: url, rest = url.split(c, 1)\<close>, with \<open>rest\<close> empty otherwise.\<close>
  "split_at_first c url = (if c \<in> set url then partition_at c url else (url, []))"

definition urlsplit :: "stdlib \<Rightarrow> string \<Rightarrow> string \<Rightarrow> error + split_result" where
  "urlsplit lib url0 scheme0 =
     (let scheme2 = fst (split_scheme (clean_url url0) (clean_scheme scheme0));
          url2 = snd (split_scheme (clean_url url0) (clean_scheme scheme0));
          has_netloc = (take 2 url2 = ''//'');
          nl = (if has_netloc then fst (splitnetloc url2) else []);
          url3 = (if has_netloc then snd (splitnetloc url2) else url2)
      in if has_netloc \<and> \<not> netloc_ok lib nl then Inl ValueError
         else
           let frag = snd (split_at_first (CHR ''#'') url3);
               url4 = fst (split_at_first (CHR ''#'') url3);
               qry = snd (split_at_first (CHR ''?'') url4);
               url5 = fst (split_at_first (CHR ''?'') url4)
           in if \<not> checknetloc lib nl then Inl ValueError
              else Inr \<lparr>scheme = scheme2, netloc = nl, path = url5, query = qry,
                        fragment = frag\<rparr>)"

definition splitparams :: "string \<Rightarrow> string \<times> string" where
  \<comment> \<open>\<open>_splitparams\<close>: the first \<open>;\<close> at or after the last \<open>/\<close> splits the path.\<close>
  "splitparams url =
     (if CHR ''/'' \<in> set url then
        (let tail = CHR ''/'' # rpartition_last (CHR ''/'') url;
             hd_part = take (length url - length tail) url
         in if CHR '';'' \<notin> set tail then (url, [])
            else (hd_part @ fst (partition_at (CHR '';'') tail),
                  snd (partition_at (CHR '';'') tail)))
      else partition_at (CHR '';'') url)"

definition urlparse :: "stdlib \<Rightarrow> string \<Rightarrow> string \<Rightarrow> error + parse_result" where
  "urlparse lib url scheme0 =
     (case urlsplit lib url scheme0 of
        Inl e \<Rightarrow> Inl e
      | Inr s \<Rightarrow>
          if scheme s \<in> set uses_params \<and> CHR '';'' \<in> set (path s)
          then Inr \<lparr>scheme = scheme s, netloc = netloc s, path = fst (splitparams (path s)),
                    query = query s, fragment = fragment s,
                    params = snd (splitparams (path s))\<rparr>
          else Inr \<lparr>scheme = scheme s, netloc = netloc s, path = path s,
                    query = query s, fragment = fragment s, params = []\<rparr>)"

definition urlunsplit :: "string \<Rightarrow> string \<Rightarrow> string \<Rightarrow> string \<Rightarrow> string \<Rightarrow> string" where
  "urlunsplit sch nl url qry frag =
     (let url1 = (if nl \<noteq> [] \<or> (sch \<noteq> [] \<and> sch \<in> set uses_netloc \<and> take 2 url \<noteq> ''//'')
                  then ''//'' @ nl @ (if url \<noteq> [] \<and> take 1 url \<noteq> ''/'' then ''/'' @ url else url)
                  else url);
          url2 = (if sch \<noteq> [] then sch @ '':'' @ url1 else url1);
          url3 = (if qry \<noteq> [] then url2 @ ''?'' @ qry else url2)
      in if frag \<noteq> [] then url3 @ ''#'' @ frag else url3)"

definition urlunparse :: "parse_result \<Rightarrow> string" where
  "urlunparse p =
     urlunsplit (scheme p) (netloc p)
       (if params p \<noteq> [] then path p @ '';'' @ params p else path p)
       (query p) (fragment p)"

fun resolve_segments :: "string list \<Rightarrow> string list \<Rightarrow> string list" where
  \<comment> \<open>the loop over \<open>segments\<close> in \<open>urljoin\<close>; the second argument is \<open>resolved_path\<close>.\<close>
  "resolve_segments [] resolved_path = resolved_path"
| "resolve_segments (seg # segs) resolved_path =
     (if seg = ''..'' then resolve_segments segs (butlast resolved_path)
      else if seg = ''.'' then resolve_segments segs resolved_path
      else resolve_segments segs (resolved_path @ [seg]))"

definition join_path :: "string \<Rightarrow> string \<Rightarrow> string" where
  \<comment> \<open>the tail of \<open>urljoin\<close>, from \<open>base_parts = bpath.split('/')\<close> on: the path of the
      result.\<close>
  "join_path bpath pth =
     (let base_parts0 = split_on (CHR ''/'') bpath;
          base_parts = (if last base_parts0 \<noteq> [] then butlast base_parts0 else base_parts0);
          segments =
            (if take 1 pth = ''/'' then split_on (CHR ''/'') pth
             else let s = base_parts @ split_on (CHR ''/'') pth
                  in take 1 s @ filter (\<lambda>x. x \<noteq> []) (take (length s - 2) (drop 1 s))
                       @ drop (max 1 (length s - 1)) s);
          resolved0 = resolve_segments segments [];
          resolved_path = (if last segments \<in> {''.'', ''..''} then resolved0 @ [[]] else resolved0)
      in if join ''/'' resolved_path = [] then ''/'' else join ''/'' resolved_path)"

definition urljoin :: "stdlib \<Rightarrow> string \<Rightarrow> string \<Rightarrow> error + string" where
  "urljoin lib base url =
     (if base = [] then Inr url
      else if url = [] then Inr base
      else case urlparse lib base [] of
        Inl e \<Rightarrow> Inl e
      | Inr b \<Rightarrow>
         (case urlparse lib url (scheme b) of
            Inl e \<Rightarrow> Inl e
          | Inr u \<Rightarrow>
              if scheme u \<noteq> scheme b \<or> scheme u \<notin> set uses_relative then Inr url
              else if scheme u \<in> set uses_netloc \<and> netloc u \<noteq> [] then Inr (urlunparse u)
              else
                let nl = (if scheme u \<in> set uses_netloc then netloc b else netloc u)
                in if path u = [] \<and> params u = [] then
                     Inr (urlunparse (u\<lparr>netloc := nl, path := path b, params := params b,
                            query := (if query u = [] then query b else query u)\<rparr>))
                   else
                     Inr (urlunparse (u\<lparr>netloc := nl, path := join_path (path b) (path u)\<rparr>))))"

definition url_netloc :: "stdlib \<Rightarrow> string \<Rightarrow> error + string" where
  \<comment> \<open>\<open>urlparse(url).netloc\<close>\<close>
  "url_netloc lib url = (case urlparse lib url [] of Inl e \<Rightarrow> Inl e | Inr p \<Rightarrow> Inr (netloc p))"


section \<open>The parsed document: \<open>BeautifulSoup\<close>\<close>

text \<open>
  \<open>fetch_html\<close> returns the tree built by \<open>BeautifulSoup(response.text, 'html.parser')\<close>.
  A node of the tree is a tag with its name, its attribute dictionary and its contents,
  or a string: a \<open>NavigableString\<close>, or a string of another class (a comment, a doctype),
  which \<open>get_text\<close> leaves out. The \<open>BeautifulSoup\<close> object itself is the list of the
  top-level nodes. An attribute that is present has a string value; an attribute
  dictionary is an association list read with \<open>map_of\<close>. A tag object is true in a
  condition whatever its contents are, so that \<open>if title_tag\<close>, \<open>if body_text\<close> and
  \<open>if not soup\<close> test whether there is a tag, or a document, at all.
\<close>

datatype node =
    Tag string "(string \<times> string) list" "node list"
  | NavigableString string
  | OtherString string

type_synonym soup = "node list"

fun descendants :: "node list \<Rightarrow> node list" where
  \<comment> \<open>\<open>.descendants\<close>: every node below, in document order.\<close>
  "descendants [] = []"
| "descendants (Tag n a cs # rest) = Tag n a cs # descendants cs @ descendants rest"
| "descendants (NavigableString s # rest) = NavigableString s # descendants rest"
| "descendants (OtherString s # rest) = OtherString s # descendants rest"

fun contents :: "node \<Rightarrow> node list" where
  "contents (Tag n a cs) = cs"
| "contents (NavigableString s) = []"
| "contents (OtherString s) = []"

fun is_tag :: "string \<Rightarrow> node \<Rightarrow> bool" where
  "is_tag name (Tag n a cs) = (n = name)"
| "is_tag name (NavigableString s) = False"
| "is_tag name (OtherString s) = False"

fun get :: "node \<Rightarrow> string \<Rightarrow> string option" where
  \<comment> \<open>\<open>tag.get(key)\<close>: \<open>None\<close> when the attribute is absent.\<close>
  "get (Tag n a cs) key = map_of a key"
| "get (NavigableString s) key = None"
| "get (OtherString s) key = None"

definition find_all :: "string \<Rightarrow> node list \<Rightarrow> node list" where
  \<comment> \<open>\<open>x.find_all(name)\<close>, for the contents of \<open>x\<close>.\<close>
  "find_all name sp = filter (is_tag name) (descendants sp)"

definition find_all_with :: "string \<Rightarrow> string \<Rightarrow> node list \<Rightarrow> node list" where
  \<comment> \<open>\<open>x.find_all(name, key=True)\<close>: the tags of that name that carry the attribute.\<close>
  "find_all_with name key sp = filter (\<lambda>t. get t key \<noteq> None) (find_all name sp)"

definition find_all_rel :: "string \<Rightarrow> string \<Rightarrow> node list \<Rightarrow> node list" where
  \<comment> \<open>\<open>x.find_all(name, rel=v)\<close>: \<open>rel\<close> is a multi-valued attribute, a tag matches when
      \<open>v\<close> is one of the white-space separated values.\<close>
  "find_all_rel name v sp =
     filter (\<lambda>t. case get t ''rel'' of None \<Rightarrow> False | Some r \<Rightarrow> v \<in> set (split_ws r []))
       (find_all name sp)"

definition find :: "string \<Rightarrow> node list \<Rightarrow> node option" where
  \<comment> \<open>\<open>x.find(name)\<close>: the first match of \<open>find_all\<close>, or \<open>None\<close>.\<close>
  "find name sp = (case find_all name sp of [] \<Rightarrow> None | t # ts \<Rightarrow> Some t)"

fun navigable_strings :: "node list \<Rightarrow> string list" where
  "navigable_strings [] = []"
| "navigable_strings (NavigableString s # rest) = s # navigable_strings rest"
| "navigable_strings (n # rest) = navigable_strings rest"

definition all_strings_strip :: "node \<Rightarrow> string list" where
  \<comment> \<open>\<open>tag._all_strings(strip=True)\<close>: the stripped strings below the tag, the empty
      ones skipped.\<close>
  "all_strings_strip t =
     filter (\<lambda>s. s \<noteq> []) (map strip (navigable_strings (descendants (contents t))))"

definition get_text :: "string \<Rightarrow> node \<Rightarrow> string" where
  \<comment> \<open>\<open>tag.get_text(separator=sep, strip=True)\<close>; the separator defaults to the empty
      string.\<close>
  "get_text sep t = join sep (all_strings_strip t)"


section \<open>The extractors of \<open>website_analyzer.py\<close>\<close>

text \<open>
  A Python dictionary is an association list in insertion order: \<open>d[k] = v\<close> is
  \<open>AList.update k v d\<close> (the value is replaced in place when the key is there, the pair is
  added at the end otherwise), \<open>d[k]\<close> is \<open>map_of d k\<close> and raises \<open>KeyError\<close> when the
  key is missing.
\<close>

fun str_nat :: "nat \<Rightarrow> string" where
  \<comment> \<open>\<open>str(i)\<close>, as the f-string \<open>f'h{i}'\<close> formats the number.\<close>
  "str_nat n =
     (if n < 10 then [char_of (48 + n)] else str_nat (n div 10) @ [char_of (48 + n mod 10)])"

declare str_nat.simps [simp del]

definition dict_of_items :: "('k \<times> 'v) list \<Rightarrow> ('k \<times> 'v) list" where
  \<comment> \<open>a dictionary comprehension: the items are stored one after the other.\<close>
  "dict_of_items kvs = foldl (\<lambda>d (k, v). AList.update k v d) [] kvs"

type_synonym headings = "(string \<times> string list) list"

definition headings_append :: "headings \<Rightarrow> string \<Rightarrow> string \<Rightarrow> error + headings" where
  \<comment> \<open>\<open>headings[tag].append(text)\<close>\<close>
  "headings_append hs tag txt =
     (case map_of hs tag of
        None \<Rightarrow> Inl KeyError
      | Some l \<Rightarrow> Inr (AList.update tag (l @ [txt]) hs))"

fun headings_of_tag :: "string \<Rightarrow> node list \<Rightarrow> headings \<Rightarrow> error + headings" where
  \<comment> \<open>the inner loop \<open>for heading in soup.find_all(tag)\<close>\<close>
  "headings_of_tag tag [] hs = Inr hs"
| "headings_of_tag tag (heading # rest) hs =
     (let txt = get_text [] heading
      in if txt \<noteq> [] then
           (case headings_append hs tag txt of
              Inl e \<Rightarrow> Inl e
            | Inr hs' \<Rightarrow> headings_of_tag tag rest hs')
         else headings_of_tag tag rest hs)"

fun headings_loop :: "soup \<Rightarrow> nat list \<Rightarrow> headings \<Rightarrow> error + headings" where
  \<comment> \<open>the outer loop \<open>for i in range(1, 7)\<close>\<close>
  "headings_loop sp [] hs = Inr hs"
| "headings_loop sp (i # rest) hs =
     (let tag = ''h'' @ str_nat i
      in case headings_of_tag tag (find_all tag sp) hs of
           Inl e \<Rightarrow> Inl e
         | Inr hs' \<Rightarrow> headings_loop sp rest hs')"

definition extract_headings :: "soup \<Rightarrow> error + headings" where
  "extract_headings sp =
     headings_loop sp [1..<7] (dict_of_items (map (\<lambda>i. (''h'' @ str_nat i, [])) [1..<7]))"

record image_info =
  src :: "string option"
  alt :: string
  width :: "string option"
  height :: "string option"

definition truthy :: "string option \<Rightarrow> bool" where
  \<comment> \<open>the truth value of an attribute read with \<open>get\<close>: present and not empty.\<close>
  "truthy v = (case v of None \<Rightarrow> False | Some s \<Rightarrow> s \<noteq> [])"

definition is_absolute_src :: "string \<Rightarrow> bool" where
  \<comment> \<open>\<open>src.startswith(('http://', 'https://', '//'))\<close>\<close>
  "is_absolute_src s \<longleftrightarrow> startswith s ''http://'' \<or> startswith s ''https://'' \<or> startswith s ''//''"

definition image_step :: "stdlib \<Rightarrow> string \<Rightarrow> node \<Rightarrow> error + image_info" where
  \<comment> \<open>the body of the loop of \<open>extract_images_info\<close>: the record of one image.\<close>
  "image_step lib base_url img =
     (let src0 = get img ''src'';
          alt0 = (case get img ''alt'' of None \<Rightarrow> [] | Some a \<Rightarrow> a);
          width0 = get img ''width'';
          height0 = get img ''height''
      in case (if truthy src0 \<and> \<not> is_absolute_src (the src0) then
                 (if endswith base_url ''/'' then Inr (Some (base_url @ the src0))
                  else (case urljoin lib base_url (the src0) of
                          Inl e \<Rightarrow> Inl e
                        | Inr r \<Rightarrow> Inr (Some r)))
               else Inr src0) of
           Inl e \<Rightarrow> Inl e
         | Inr src1 \<Rightarrow> Inr \<lparr>src = src1, alt = alt0, width = width0, height = height0\<rparr>)"

fun images_loop ::
  "stdlib \<Rightarrow> string \<Rightarrow> node list \<Rightarrow> image_info list \<Rightarrow> error + image_info list" where
  "images_loop lib base_url [] images_info = Inr images_info"
| "images_loop lib base_url (img # rest) images_info =
     (case image_step lib base_url img of
        Inl e \<Rightarrow> Inl e
      | Inr info \<Rightarrow> images_loop lib base_url rest (images_info @ [info]))"

definition extract_images_info ::
  "stdlib \<Rightarrow> soup \<Rightarrow> string \<Rightarrow> error + (image_info list \<times> nat)" where
  "extract_images_info lib sp base_url =
     (let image_tags = find_all ''img'' sp
      in case images_loop lib base_url image_tags [] of
           Inl e \<Rightarrow> Inl e
         | Inr images_info \<Rightarrow> Inr (images_info, length image_tags))"

record link_data =
  href :: string
  link_text :: string

record links_state =
  links_info :: "link_data list"
  cur_internal_links :: "link_data list"
  cur_external_links :: "link_data list"
  cur_internal_count :: nat
  cur_external_count :: nat

record links_summary =
  total_links :: nat
  internal_links :: "link_data list"
  external_links :: "link_data list"
  internal_count :: nat
  external_count :: nat

text \<open>
  \<open>links_state\<close> holds the local variables of \<open>extract_links_info\<close> (\<open>links_info\<close>,
  \<open>internal_links\<close>, \<open>external_links\<close>, \<open>internal_count\<close>, \<open>external_count\<close>) while the
  loop runs; \<open>links_summary\<close> is the dictionary it returns, under the keys of the source.
\<close>

definition classify_link :: "string \<Rightarrow> string \<Rightarrow> link_data \<Rightarrow> links_state \<Rightarrow> links_state" where
  \<comment> \<open>the end of the loop body: the record goes to the list of all links and to one of
      the two buckets.\<close>
  "classify_link full_netloc base_netloc d st =
     (let st1 = st\<lparr>links_info := links_info st @ [d]\<rparr>
      in if full_netloc = base_netloc
         then st1\<lparr>cur_internal_links := cur_internal_links st1 @ [d],
                  cur_internal_count := cur_internal_count st1 + 1\<rparr>
         else st1\<lparr>cur_external_links := cur_external_links st1 @ [d],
                  cur_external_count := cur_external_count st1 + 1\<rparr>)"

definition link_step ::
  "stdlib \<Rightarrow> string \<Rightarrow> node \<Rightarrow> links_state \<Rightarrow> error + links_state" where
  \<comment> \<open>the body of the loop of \<open>extract_links_info\<close>\<close>
  "link_step lib base_url a_tag st =
     (case get a_tag ''href'' of
        None \<Rightarrow> Inl KeyError
      | Some h \<Rightarrow>
         (case urljoin lib base_url (strip h) of
            Inl e \<Rightarrow> Inl e
          | Inr full_href \<Rightarrow>
             (case urlparse lib base_url [] of
                Inl e \<Rightarrow> Inl e
              | Inr parsed_base \<Rightarrow>
                 (case urlparse lib full_href [] of
                    Inl e \<Rightarrow> Inl e
                  | Inr parsed_full_href \<Rightarrow>
                      Inr (classify_link (netloc parsed_full_href) (netloc parsed_base)
                             \<lparr>href = full_href, link_text = get_text [] a_tag\<rparr> st)))))"

fun links_loop ::
  "stdlib \<Rightarrow> string \<Rightarrow> node list \<Rightarrow> links_state \<Rightarrow> error + links_state" where
  "links_loop lib base_url [] st = Inr st"
| "links_loop lib base_url (a_tag # rest) st =
     (case link_step lib base_url a_tag st of
        Inl e \<Rightarrow> Inl e
      | Inr st' \<Rightarrow> links_loop lib base_url rest st')"

definition links_init :: links_state where
  "links_init = \<lparr>links_info = [], cur_internal_links = [], cur_external_links = [],
                 cur_internal_count = 0, cur_external_count = 0\<rparr>"

definition links_result :: "node list \<Rightarrow> links_state \<Rightarrow> links_summary" where
  \<comment> \<open>the dictionary that \<open>extract_links_info\<close> returns\<close>
  "links_result link_tags st =
     \<lparr>total_links = length link_tags,
      internal_links = cur_internal_links st, external_links = cur_external_links st,
      internal_count = cur_internal_count st, external_count = cur_external_count st\<rparr>"

definition extract_links_info ::
  "stdlib \<Rightarrow> soup \<Rightarrow> string \<Rightarrow> error + links_summary" where
  "extract_links_info lib sp base_url =
     (let link_tags = find_all_with ''a'' ''href'' sp
      in case links_loop lib base_url link_tags links_init of
           Inl e \<Rightarrow> Inl e
         | Inr st \<Rightarrow> Inr (links_result link_tags st))"

type_synonym meta_info = "(string \<times> string option) list"

fun meta_loop :: "node list \<Rightarrow> meta_info \<Rightarrow> meta_info" where
  \<comment> \<open>the loop \<open>for meta in soup.find_all('meta')\<close>\<close>
  "meta_loop [] mi = mi"
| "meta_loop (meta # rest) mi =
     (let name = get meta ''name'';
          property_tag = get meta ''property'';
          content = get meta ''content''
      in if truthy name then meta_loop rest (AList.update (the name) content mi)
         else if truthy property_tag then meta_loop rest (AList.update (the property_tag) content mi)
         else meta_loop rest mi)"

definition extract_meta_tags :: "soup \<Rightarrow> meta_info" where
  "extract_meta_tags sp =
     (let mi = meta_loop (find_all ''meta'' sp) []
      in case find ''title'' sp of
           None \<Rightarrow> mi
         | Some title_tag \<Rightarrow> AList.update ''title'' (Some (get_text [] title_tag)) mi)"


section \<open>The analysis of \<open>website_analyzer.py\<close>\<close>

text \<open>
  The result of \<open>analyze_website\<close> is a dictionary whose values are of several Python
  types. \<open>fetch_html\<close> is the request over the network and the parser: it is the
  parameter \<open>fetch_html\<close>, which gives the parsed document, or \<open>None\<close> when the request
  raised a \<open>RequestException\<close>. The messages that the functions print or log are left out.
\<close>

record images_summary =
  total_images :: nat
  image_details :: "image_info list"

datatype pyvalue =
    VStr string
  | VInt nat
  | VEmptyDict
  | VHeadings headings
  | VImages images_summary
  | VLinks links_summary
  | VMeta meta_info

type_synonym analysis = "(string \<times> pyvalue) list"

definition analyze_website ::
  "stdlib \<Rightarrow> (string \<Rightarrow> soup option) \<Rightarrow> string \<Rightarrow> error + analysis" where
  "analyze_website lib fetch_html url =
     (case fetch_html url of
        None \<Rightarrow> Inr [(''error'', VStr (''Could not fetch or parse '' @ url))]
      | Some sp \<Rightarrow>
         (case extract_headings sp of
            Inl e \<Rightarrow> Inl e
          | Inr hs \<Rightarrow>
             (case extract_links_info lib sp url of
                Inl e \<Rightarrow> Inl e
              | Inr links \<Rightarrow>
                 (let analysis_results =
                        [(''url'', VStr url),
                         (''headings'', VHeadings hs),
                         (''images'', VEmptyDict),
                         (''links'', VLinks links),
                         (''meta_tags'', VMeta (extract_meta_tags sp)),
                         (''word_count'', VInt 0),
                         (''paragraph_count'', VInt 0),
                         (''stylesheet_count'', VInt 0),
                         (''script_count'', VInt 0)]
                  in case extract_images_info lib sp url of
                       Inl e \<Rightarrow> Inl e
                     | Inr (images_list, n_images) \<Rightarrow>
                        (let r1 = AList.update ''images''
                                    (VImages \<lparr>total_images = n_images,
                                              image_details = images_list\<rparr>) analysis_results;
                             r2 = (case find ''body'' sp of
                                     None \<Rightarrow> r1
                                   | Some body_text \<Rightarrow>
                                       AList.update ''paragraph_count''
                                         (VInt (length (find_all ''p'' (contents body_text))))
                                         (AList.update ''word_count''
                                            (VInt (length (split_ws (get_text '' '' body_text) [])))
                                            r1));
                             r3 = AList.update ''stylesheet_count''
                                    (VInt (length (find_all_rel ''link'' ''stylesheet'' sp))) r2
                         in Inr (AList.update ''script_count''
                                   (VInt (length (find_all_with ''script'' ''src'' sp))) r3))))))"


section \<open>The class \<open>WebsiteAnalyzer\<close> of \<open>website_analyzer2.py\<close>\<close>

text \<open>
  The methods of the class carry the prefix \<open>wa_\<close>. \<open>self\<close> holds the HTTP session only,
  which \<open>fetch_html\<close> alone uses, so the methods are functions of their other arguments.
\<close>

definition wa_extract_headings :: "soup \<Rightarrow> headings" where
  "wa_extract_headings sp =
     dict_of_items
       (map (\<lambda>i. (''h'' @ str_nat i,
                   map (get_text [])
                     (filter (\<lambda>heading. get_text [] heading \<noteq> [])
                        (find_all (''h'' @ str_nat i) sp))))
          [1..<7])"

definition wa_image_step :: "stdlib \<Rightarrow> string \<Rightarrow> node \<Rightarrow> error + image_info" where
  "wa_image_step lib base_url img =
     (let src0 = get img ''src'';
          alt0 = (case get img ''alt'' of None \<Rightarrow> [] | Some a \<Rightarrow> a);
          width0 = get img ''width'';
          height0 = get img ''height''
      in case (if truthy src0 \<and> \<not> is_absolute_src (the src0) then
                 (case urljoin lib base_url (the src0) of
                    Inl e \<Rightarrow> Inl e
                  | Inr r \<Rightarrow> Inr (Some r))
               else Inr src0) of
           Inl e \<Rightarrow> Inl e
         | Inr src1 \<Rightarrow> Inr \<lparr>src = src1, alt = alt0, width = width0, height = height0\<rparr>)"

fun wa_images_loop ::
  "stdlib \<Rightarrow> string \<Rightarrow> node list \<Rightarrow> image_info list \<Rightarrow> error + image_info list" where
  "wa_images_loop lib base_url [] images_info = Inr images_info"
| "wa_images_loop lib base_url (img # rest) images_info =
     (case wa_image_step lib base_url img of
        Inl e \<Rightarrow> Inl e
      | Inr info \<Rightarrow> wa_images_loop lib base_url rest (images_info @ [info]))"

definition wa_extract_images_info ::
  "stdlib \<Rightarrow> soup \<Rightarrow> string \<Rightarrow> error + (image_info list \<times> nat)" where
  "wa_extract_images_info lib sp base_url =
     (let image_tags = find_all ''img'' sp
      in case wa_images_loop lib base_url image_tags [] of
           Inl e \<Rightarrow> Inl e
         | Inr images_info \<Rightarrow> Inr (images_info, length image_tags))"

definition wa_link_step ::
  "stdlib \<Rightarrow> string \<Rightarrow> parse_result \<Rightarrow> node \<Rightarrow> links_state \<Rightarrow> error + links_state"
  where
  "wa_link_step lib base_url parsed_base a_tag st =
     (case get a_tag ''href'' of
        None \<Rightarrow> Inl KeyError
      | Some h \<Rightarrow>
         (case urljoin lib base_url (strip h) of
            Inl e \<Rightarrow> Inl e
          | Inr full_href \<Rightarrow>
             (case urlparse lib full_href [] of
                Inl e \<Rightarrow> Inl e
              | Inr parsed_full_href \<Rightarrow>
                  Inr (classify_link (netloc parsed_full_href) (netloc parsed_base)
                         \<lparr>href = full_href, link_text = get_text [] a_tag\<rparr> st))))"

fun wa_links_loop ::
  "stdlib \<Rightarrow> string \<Rightarrow> parse_result \<Rightarrow> node list \<Rightarrow> links_state
     \<Rightarrow> error + links_state" where
  "wa_links_loop lib base_url parsed_base [] st = Inr st"
| "wa_links_loop lib base_url parsed_base (a_tag # rest) st =
     (case wa_link_step lib base_url parsed_base a_tag st of
        Inl e \<Rightarrow> Inl e
      | Inr st' \<Rightarrow> wa_links_loop lib base_url parsed_base rest st')"

definition wa_extract_links_info ::
  "stdlib \<Rightarrow> soup \<Rightarrow> string \<Rightarrow> error + links_summary" where
  "wa_extract_links_info lib sp base_url =
     (let link_tags = find_all_with ''a'' ''href'' sp
      in case urlparse lib base_url [] of
           Inl e \<Rightarrow> Inl e
         | Inr parsed_base \<Rightarrow>
            (case wa_links_loop lib base_url parsed_base link_tags links_init of
               Inl e \<Rightarrow> Inl e
             | Inr st \<Rightarrow> Inr (links_result link_tags st)))"

fun wa_meta_loop :: "node list \<Rightarrow> meta_info \<Rightarrow> meta_info" where
  "wa_meta_loop [] mi = mi"
| "wa_meta_loop (meta # rest) mi =
     (let name = get meta ''name'';
          property_tag = get meta ''property'';
          content = get meta ''content''
      in if truthy name then wa_meta_loop rest (AList.update (the name) content mi)
         else if truthy property_tag
              then wa_meta_loop rest (AList.update (the property_tag) content mi)
         else wa_meta_loop rest mi)"

definition wa_extract_meta_tags :: "soup \<Rightarrow> meta_info" where
  "wa_extract_meta_tags sp =
     (let mi = wa_meta_loop (find_all ''meta'' sp) []
      in case find ''title'' sp of
           None \<Rightarrow> mi
         | Some title_tag \<Rightarrow> AList.update ''title'' (Some (get_text [] title_tag)) mi)"

definition wa_analyze_website ::
  "stdlib \<Rightarrow> (string \<Rightarrow> soup option) \<Rightarrow> string \<Rightarrow> error + analysis" where
  "wa_analyze_website lib fetch_html url =
     (case fetch_html url of
        None \<Rightarrow> Inr [(''error'', VStr (''Could not fetch or parse '' @ url))]
      | Some sp \<Rightarrow>
         (case wa_extract_links_info lib sp url of
            Inl e \<Rightarrow> Inl e
          | Inr links \<Rightarrow>
             (let analysis_results =
                    [(''url'', VStr url),
                     (''headings'', VHeadings (wa_extract_headings sp)),
                     (''images'', VEmptyDict),
                     (''links'', VLinks links),
                     (''meta_tags'', VMeta (wa_extract_meta_tags sp)),
                     (''word_count'', VInt 0),
                     (''paragraph_count'', VInt 0),
                     (''stylesheet_count'', VInt 0),
                     (''script_count'', VInt 0)]
              in case wa_extract_images_info lib sp url of
                   Inl e \<Rightarrow> Inl e
                 | Inr (images_list, n_images) \<Rightarrow>
                    (let r1 = AList.update ''images''
                                (VImages \<lparr>total_images = n_images,
                                          image_details = images_list\<rparr>) analysis_results;
                         r2 = (case find ''body'' sp of
                                 None \<Rightarrow> r1
                               | Some body_tag \<Rightarrow>
                                   AList.update ''paragraph_count''
                                     (VInt (length (find_all ''p'' (contents body_tag))))
                                     (AList.update ''word_count''
                                        (VInt (length (split_ws (get_text '' '' body_tag) [])))
                                        r1));
                         r3 = AList.update ''stylesheet_count''
                                (VInt (length (find_all_rel ''link'' ''stylesheet'' sp))) r2
                     in Inr (AList.update ''script_count''
                               (VInt (length (find_all_with ''script'' ''src'' sp))) r3)))))"


section \<open>Inputs for the concrete evaluations\<close>

definition simple_stdlib :: stdlib where
  \<comment> \<open>the two library functions for the evaluations below; none of their URLs has a
      bracket or a character that is not ASCII, so that they do not depend on them.\<close>
  "simple_stdlib = \<lparr>check_bracketed_host = (\<lambda>h. True), nfkc = (\<lambda>s. s)\<rparr>"

definition serve :: "soup \<Rightarrow> string \<Rightarrow> soup option" where
  \<comment> \<open>a \<open>fetch_html\<close> that succeeds with the given document for every URL.\<close>
  "serve sp url = Some sp"

definition unreachable :: "string \<Rightarrow> soup option" where
  \<comment> \<open>a \<open>fetch_html\<close> whose request fails for every URL.\<close>
  "unreachable url = None"


section \<open>Notions used to state the properties\<close>

definition plain_url :: "string \<Rightarrow> bool" where
  \<comment> \<open>every character of the string is ASCII and none is a square bracket: the two checks
      of \<open>urlsplit\<close> pass on such a URL.\<close>
  "plain_url s \<longleftrightarrow>
     (\<forall>c \<in> set s. (of_char c :: nat) < 128 \<and> c \<noteq> CHR ''['' \<and> c \<noteq> CHR '']'')"

definition plain_url_result :: "parse_result \<Rightarrow> bool" where
  \<comment> \<open>every component of the parsed URL is ASCII without brackets.\<close>
  "plain_url_result p \<longleftrightarrow>
     plain_url (scheme p) \<and> plain_url (netloc p) \<and> plain_url (path p)
     \<and> plain_url (params p) \<and> plain_url (query p) \<and> plain_url (fragment p)"

definition heading_texts :: "string \<Rightarrow> soup \<Rightarrow> string list" where
  \<comment> \<open>what \<open>get_text(strip=True)\<close> gives for the elements of one heading level, in
      document order, without the empty results.\<close>
  "heading_texts tag sp = filter (\<lambda>t. t \<noteq> []) (map (get_text []) (find_all tag sp))"

definition element_strings :: "node \<Rightarrow> string list" where
  \<comment> \<open>the pieces of text of an element: the strings below it in document order, comments
      and the like left out.\<close>
  "element_strings t = navigable_strings (descendants (contents t))"

definition trimmed_text :: "node \<Rightarrow> string" where
  \<comment> \<open>the trimmed text of an element in the words of the specification: the text of the
      element, which is its pieces one after the other, without the white space at its
      two ends.\<close>
  "trimmed_text t = strip (concat (element_strings t))"

definition trimmed_heading_texts :: "string \<Rightarrow> soup \<Rightarrow> string list" where
  \<comment> \<open>the entries of one heading level in the words of the specification: the trimmed
      texts of the elements in document order, without the empty ones.\<close>
  "trimmed_heading_texts tag sp =
     filter (\<lambda>t. t \<noteq> []) (map trimmed_text (find_all tag sp))"

definition stripped_pieces_text :: "node \<Rightarrow> string" where
  \<comment> \<open>every piece of text of the element trimmed on its own, and the trimmed pieces put
      one after the other with nothing between them.\<close>
  "stripped_pieces_text t = concat (map strip (element_strings t))"


definition link_record :: "stdlib \<Rightarrow> string \<Rightarrow> node \<Rightarrow> error + (link_data \<times> string)" where
  \<comment> \<open>for an \<open>a\<close> element with an \<open>href\<close>: the link record of the element, which holds the
      trimmed \<open>href\<close> resolved against the base URL and the text of the element, and the
      netloc of the resolved \<open>href\<close>.\<close>
  "link_record lib base_url a_tag =
     (case urljoin lib base_url (strip (the (get a_tag ''href''))) of
        Inl e \<Rightarrow> Inl e
      | Inr full_href \<Rightarrow>
         (case url_netloc lib full_href of
            Inl e \<Rightarrow> Inl e
          | Inr n \<Rightarrow> Inr (\<lparr>href = full_href, link_text = get_text [] a_tag\<rparr>, n)))"

definition attr_plain_url :: "string \<Rightarrow> string \<Rightarrow> soup \<Rightarrow> bool" where
  \<comment> \<open>the attribute \<open>key\<close> of every \<open>name\<close> element of the document, where present, is
      ASCII without brackets.\<close>
  "attr_plain_url name key sp \<longleftrightarrow>
     (\<forall>t \<in> set (find_all name sp).
        case get t key of None \<Rightarrow> True | Some v \<Rightarrow> plain_url v)"


section \<open>Image sources (C1)\<close>

text \<open>
  C1 says that \<open>extract_images_info\<close> resolves every relative \<open>src\<close> against the base URL
  as RFC 3986 does, so that base \<open>https://example.com/blog/\<close> and \<open>src\<close> \<open>../logo.png\<close>
  give \<open>https://example.com/logo.png\<close>. The function of \<open>website_analyzer.py\<close> does not:
  when the base URL ends with a slash it appends the \<open>src\<close> to the base URL, and the
  result for that input is \<open>https://example.com/blog/../logo.png\<close>, whatever the
  library functions of \<open>lib\<close> are.
\<close>

theorem extract_images_info_appends_src:
  "extract_images_info lib [Tag ''img'' [(''src'', ''../logo.png'')] []] ''https://example.com/blog/''
     = Inr ([\<lparr>src = Some ''https://example.com/blog/../logo.png'', alt = [],
              width = None, height = None\<rparr>], 1)"
  by (simp add: extract_images_info_def find_all_def image_step_def truthy_def
        is_absolute_src_def startswith_def endswith_def)


section \<open>Headings (C8)\<close>

lemma headings_of_tag_collects:
  "map_of hs tag = Some l \<Longrightarrow>
   headings_of_tag tag ns hs =
     Inr (AList.update tag (l @ filter (\<lambda>t. t \<noteq> []) (map (get_text []) ns)) hs)"
proof (induction ns arbitrary: hs l)
  case Nil
  then show ?case by (simp add: AList.update_triv)
next
  case (Cons n ns)
  show ?case
  proof (cases "get_text [] n = []")
    case True
    with Cons show ?thesis by simp
  next
    case False
    have step: "headings_append hs tag (get_text [] n)
                  = Inr (AList.update tag (l @ [get_text [] n]) hs)"
      using Cons.prems by (simp add: headings_append_def)
    have look: "map_of (AList.update tag (l @ [get_text [] n]) hs) tag
                  = Some (l @ [get_text [] n])"
      by (simp add: AList.update_conv')
    show ?thesis
      using False Cons.IH [OF look] step by simp
  qed
qed

lemma upt_1_7: "[1..<7] = [1, 2, 3, 4, 5, 6::nat]"
  by code_simp

lemma str_nat_digits:
  "str_nat (Suc 0) = ''1''" "str_nat 1 = ''1''" "str_nat 2 = ''2''" "str_nat 3 = ''3''"
  "str_nat 4 = ''4''" "str_nat 5 = ''5''" "str_nat 6 = ''6''"
  by code_simp+

lemma extract_headings_eq:
  "extract_headings sp =
     Inr (map (\<lambda>tag. (tag, heading_texts tag sp))
            [''h1'', ''h2'', ''h3'', ''h4'', ''h5'', ''h6''])"
  unfolding extract_headings_def upt_1_7 heading_texts_def
  by (simp add: str_nat_digits dict_of_items_def headings_of_tag_collects Let_def)

lemma wa_extract_headings_eq:
  "wa_extract_headings sp =
     map (\<lambda>tag. (tag, heading_texts tag sp))
       [''h1'', ''h2'', ''h3'', ''h4'', ''h5'', ''h6'']"
  unfolding wa_extract_headings_def upt_1_7 heading_texts_def
  by (simp add: str_nat_digits dict_of_items_def filter_map comp_def)

lemma join_empty_separator: "join [] xs = concat xs"
  by (induction "[] :: string" xs rule: join.induct) simp_all

lemma concat_without_empty: "concat (filter (\<lambda>s. s \<noteq> []) xs) = concat xs"
  by (induction xs) simp_all

lemma get_text_stripped_pieces: "get_text [] t = stripped_pieces_text t"
  by (simp add: get_text_def all_strings_strip_def stripped_pieces_text_def element_strings_def
        join_empty_separator concat_without_empty)

lemma strip_empty_iff: "strip s = [] \<longleftrightarrow> (\<forall>c \<in> set s. isspace c)"
proof
  assume "strip s = []"
  then have "\<forall>c \<in> set (dropWhile isspace s). isspace c"
    by (simp add: strip_def dropWhile_eq_Nil_conv)
  then have "dropWhile isspace s = []"
    using hd_dropWhile [of isspace s] by (cases "dropWhile isspace s") auto
  then show "\<forall>c \<in> set s. isspace c"
    by (simp add: dropWhile_eq_Nil_conv)
next
  assume "\<forall>c \<in> set s. isspace c"
  then have d: "dropWhile isspace s = []" by simp
  show "strip s = []"
    unfolding strip_def d by simp
qed

lemma stripped_pieces_empty_iff: "stripped_pieces_text t = [] \<longleftrightarrow> trimmed_text t = []"
  by (auto simp: stripped_pieces_text_def trimmed_text_def strip_empty_iff)

lemma last_dropWhile: "dropWhile P xs \<noteq> [] \<Longrightarrow> last (dropWhile P xs) = last xs"
  by (induction xs) (auto split: if_splits)

lemma strip_ends:
  assumes "strip s \<noteq> []"
  shows "\<not> isspace (hd (strip s))" "\<not> isspace (last (strip s))"
proof -
  define d where "d = dropWhile isspace s"
  define e where "e = dropWhile isspace (rev d)"
  have s: "strip s = rev e"
    by (simp add: strip_def d_def e_def)
  with assms have e: "e \<noteq> []" by simp
  then have d: "d \<noteq> []" by (auto simp: e_def)
  have "last e = last (rev d)"
    using e unfolding e_def by (rule last_dropWhile)
  also have "\<dots> = hd d"
    using d by (simp add: last_rev)
  finally have "hd (strip s) = hd d"
    using e by (simp add: s hd_rev)
  moreover have "\<not> isspace (hd d)"
    using d hd_dropWhile [of isspace s] by (simp add: d_def)
  ultimately show "\<not> isspace (hd (strip s))" by simp
  have "last (strip s) = hd e"
    using e by (simp add: s last_rev)
  moreover have "\<not> isspace (hd e)"
    using e hd_dropWhile [of isspace "rev d"] by (simp add: e_def)
  ultimately show "\<not> isspace (last (strip s))" by simp
qed

lemma stripped_pieces_ends:
  "concat (map strip xs) \<noteq> [] \<Longrightarrow>
   \<not> isspace (hd (concat (map strip xs))) \<and> \<not> isspace (last (concat (map strip xs)))"
proof (induction xs)
  case Nil
  then show ?case by simp
next
  case (Cons x xs)
  show ?case
  proof (cases "strip x = []")
    case True
    with Cons show ?thesis by simp
  next
    case False
    from strip_ends [OF False] Cons.IH show ?thesis
      using False by (cases "concat (map strip xs) = []") simp_all
  qed
qed

lemma heading_texts_stripped_pieces:
  "heading_texts tag sp =
     map stripped_pieces_text (filter (\<lambda>h. trimmed_text h \<noteq> []) (find_all tag sp))"
  by (simp add: heading_texts_def filter_map comp_def get_text_stripped_pieces
        stripped_pieces_empty_iff)

text \<open>
  C8 says that the headings hold, for each level, exactly the trimmed texts of the
  elements of that level. \<open>extract_headings\<close> reads the text of a heading with
  \<open>get_text(strip=True)\<close>, which trims every piece of text of the element on its own
  and joins the pieces without a separator: it also removes the white space between a
  piece and the markup next to it. For the heading
  \<open><h1>Hello <em>big</em> World</h1>\<close> the entry is \<open>HellobigWorld\<close>, and the
  trimmed text of the element is \<open>Hello big World\<close>.
\<close>

theorem extract_headings_trimmed_texts_counterexample:
  "extract_headings
     [Tag ''h1'' [] [NavigableString ''Hello '', Tag ''em'' [] [NavigableString ''big''],
                   NavigableString '' World'']]
   = Inr [(''h1'', [''HellobigWorld'']), (''h2'', []), (''h3'', []), (''h4'', []),
          (''h5'', []), (''h6'', [])]
   \<and> wa_extract_headings
     [Tag ''h1'' [] [NavigableString ''Hello '', Tag ''em'' [] [NavigableString ''big''],
                   NavigableString '' World'']]
   = [(''h1'', [''HellobigWorld'']), (''h2'', []), (''h3'', []), (''h4'', []),
          (''h5'', []), (''h6'', [])]
   \<and> trimmed_heading_texts ''h1''
     [Tag ''h1'' [] [NavigableString ''Hello '', Tag ''em'' [] [NavigableString ''big''],
                   NavigableString '' World'']]
   = [''Hello big World'']"
  by code_simp

text \<open>
  C8 as amended: for every document, the headings returned by \<open>extract_headings\<close> hold,
  for each level \<open>h1\<close> to \<open>h6\<close> in this order, one entry for every element of that
  level whose trimmed text is not empty, in document order, and no other entry. The
  trimmed text of an element is empty exactly when its text is white space only. The
  entry of an element is made of its pieces of text, each trimmed on its own, joined
  without a separator; it is not empty, and it neither starts nor ends with white space.
  It is the trimmed text of the element when the element has one piece of text only.
  This holds of the function of \<open>website_analyzer.py\<close>, which never raises, and of the
  method of \<open>website_analyzer2.py\<close>.
\<close>

theorem extract_headings_stripped_pieces:
  "extract_headings sp =
     Inr (map (\<lambda>tag. (tag, map stripped_pieces_text
                            (filter (\<lambda>h. trimmed_text h \<noteq> []) (find_all tag sp))))
            [''h1'', ''h2'', ''h3'', ''h4'', ''h5'', ''h6''])
   \<and> wa_extract_headings sp =
     map (\<lambda>tag. (tag, map stripped_pieces_text
                       (filter (\<lambda>h. trimmed_text h \<noteq> []) (find_all tag sp))))
       [''h1'', ''h2'', ''h3'', ''h4'', ''h5'', ''h6'']
   \<and> (trimmed_text h = [] \<longleftrightarrow> (\<forall>c \<in> set (concat (element_strings h)). isspace c))
   \<and> (trimmed_text h \<noteq> [] \<longrightarrow>
        stripped_pieces_text h \<noteq> [] \<and> \<not> isspace (hd (stripped_pieces_text h))
        \<and> \<not> isspace (last (stripped_pieces_text h)))
   \<and> (element_strings h = [s] \<longrightarrow> stripped_pieces_text h = trimmed_text h)"
proof (intro conjI impI)
  show "extract_headings sp =
     Inr (map (\<lambda>tag. (tag, map stripped_pieces_text
                            (filter (\<lambda>h. trimmed_text h \<noteq> []) (find_all tag sp))))
            [''h1'', ''h2'', ''h3'', ''h4'', ''h5'', ''h6''])"
    by (simp add: extract_headings_eq heading_texts_stripped_pieces)
  show "wa_extract_headings sp =
     map (\<lambda>tag. (tag, map stripped_pieces_text
                       (filter (\<lambda>h. trimmed_text h \<noteq> []) (find_all tag sp))))
       [''h1'', ''h2'', ''h3'', ''h4'', ''h5'', ''h6'']"
    by (simp add: wa_extract_headings_eq heading_texts_stripped_pieces)
  show "trimmed_text h = [] \<longleftrightarrow> (\<forall>c \<in> set (concat (element_strings h)). isspace c)"
    unfolding trimmed_text_def by (rule strip_empty_iff)
next
  assume "trimmed_text h \<noteq> []"
  then show n: "stripped_pieces_text h \<noteq> []"
    by (simp add: stripped_pieces_empty_iff)
  then show "\<not> isspace (hd (stripped_pieces_text h))"
    "\<not> isspace (last (stripped_pieces_text h))"
    using stripped_pieces_ends [of "element_strings h"]
    by (simp_all add: stripped_pieces_text_def)
next
  assume "element_strings h = [s]"
  then show "stripped_pieces_text h = trimmed_text h"
    by (simp add: stripped_pieces_text_def trimmed_text_def)
qed

theorem extract_headings_stripped_pieces_witness:
  "extract_headings
     [Tag ''h1'' [] [NavigableString ''  Hello  ''],
      Tag ''h1'' [] [NavigableString ''   '', Tag ''span'' [] [NavigableString '' '']],
      Tag ''h1'' [] [],
      Tag ''h2'' [] [NavigableString '' big '', Tag ''em'' [] [NavigableString ''World '']]]
   = Inr [(''h1'', [''Hello'']), (''h2'', [''bigWorld'']), (''h3'', []), (''h4'', []),
          (''h5'', []), (''h6'', [])]
   \<and> wa_extract_headings
     [Tag ''h1'' [] [NavigableString ''  Hello  ''],
      Tag ''h1'' [] [NavigableString ''   '', Tag ''span'' [] [NavigableString '' '']],
      Tag ''h1'' [] [],
      Tag ''h2'' [] [NavigableString '' big '', Tag ''em'' [] [NavigableString ''World '']]]
   = [(''h1'', [''Hello'']), (''h2'', [''bigWorld'']), (''h3'', []), (''h4'', []),
          (''h5'', []), (''h6'', [])]
   \<and> element_strings (Tag ''h1'' [] [NavigableString ''  Hello  '']) = [''  Hello  '']
   \<and> trimmed_text (Tag ''h1'' [] [NavigableString ''  Hello  '']) = ''Hello''
   \<and> stripped_pieces_text (Tag ''h1'' [] [NavigableString ''  Hello  '']) = ''Hello''
   \<and> \<not> isspace (hd ''Hello'') \<and> \<not> isspace (last ''Hello'')"
proof -
  let ?h = "Tag ''h1'' [] [NavigableString ''  Hello  '']"
  let ?doc = "[Tag ''h1'' [] [NavigableString ''  Hello  ''],
      Tag ''h1'' [] [NavigableString ''   '', Tag ''span'' [] [NavigableString '' '']],
      Tag ''h1'' [] [],
      Tag ''h2'' [] [NavigableString '' big '', Tag ''em'' [] [NavigableString ''World '']]]"
  have e1: "element_strings ?h = [''  Hello  '']"
    by (simp add: element_strings_def)
  have e2: "trimmed_text ?h = ''Hello''"
    by code_simp
  have e3: "map (\<lambda>tag. (tag, map stripped_pieces_text
                       (filter (\<lambda>h. trimmed_text h \<noteq> []) (find_all tag ?doc))))
       [''h1'', ''h2'', ''h3'', ''h4'', ''h5'', ''h6'']
     = [(''h1'', [''Hello'']), (''h2'', [''bigWorld'']), (''h3'', []), (''h4'', []),
          (''h5'', []), (''h6'', [])]"
    by code_simp
  have e4: "stripped_pieces_text ?h = ''Hello''"
    by code_simp
  have e5: "\<not> isspace (hd ''Hello'')" "\<not> isspace (last ''Hello'')"
    by (simp_all add: isspace_def)
  from extract_headings_stripped_pieces [of ?doc ?h "''  Hello  ''"] e1 e2 e3 e4 e5
  show ?thesis by simp
qed


section \<open>The URL library on ASCII URLs without brackets\<close>

lemma plain_url_simps [simp]:
  "plain_url []"
  "plain_url (x # xs) \<longleftrightarrow>
     (of_char x :: nat) < 128 \<and> x \<noteq> CHR ''['' \<and> x \<noteq> CHR '']'' \<and> plain_url xs"
  "plain_url (xs @ ys) \<longleftrightarrow> plain_url xs \<and> plain_url ys"
  by (auto simp: plain_url_def)

lemma plain_url_parts:
  assumes "plain_url s"
  shows "plain_url (takeWhile P s)" "plain_url (dropWhile P s)"
    "plain_url (take n s)" "plain_url (drop n s)" "plain_url (filter P s)"
    "plain_url (rev s)" "plain_url (butlast s)"
  using assms
  by (auto simp: plain_url_def
      dest: set_takeWhileD set_dropWhileD in_set_takeD in_set_dropD in_set_butlastD)

lemma plain_url_partition_at:
  "plain_url s \<Longrightarrow> plain_url (fst (partition_at c s))"
  "plain_url s \<Longrightarrow> plain_url (snd (partition_at c s))"
  by (simp_all add: partition_at_def plain_url_parts)

lemma plain_url_split_at_first:
  "plain_url s \<Longrightarrow> plain_url (fst (split_at_first c s))"
  "plain_url s \<Longrightarrow> plain_url (snd (split_at_first c s))"
  by (simp_all add: split_at_first_def plain_url_partition_at)

lemma plain_url_splitnetloc:
  "plain_url s \<Longrightarrow> plain_url (fst (splitnetloc s))"
  "plain_url s \<Longrightarrow> plain_url (snd (splitnetloc s))"
  by (simp_all add: splitnetloc_def Let_def plain_url_parts)

lemma scheme_chars_plain:
  "\<forall>c \<in> set scheme_chars. (of_char c :: nat) < 128 \<and> c \<noteq> CHR ''['' \<and> c \<noteq> CHR '']''"
  by (simp add: scheme_chars_def)

lemma lower_char_plain:
  assumes "(of_char c :: nat) < 128" "c \<noteq> CHR ''[''" "c \<noteq> CHR '']''"
  shows "(of_char (lower_char c) :: nat) < 128 \<and> lower_char c \<noteq> CHR ''[''
         \<and> lower_char c \<noteq> CHR '']''"
proof (cases "65 \<le> (of_char c :: nat) \<and> (of_char c :: nat) \<le> 90")
  case False
  with assms show ?thesis by (auto simp: lower_char_def Let_def)
next
  case True
  then have l: "lower_char c = char_of ((of_char c :: nat) + 32)"
    by (simp add: lower_char_def Let_def)
  have v: "(of_char (lower_char c) :: nat) = of_char c + 32"
    using True unfolding l by simp
  have "(of_char (CHR ''['') :: nat) = 91" "(of_char (CHR '']'') :: nat) = 93"
    by simp_all
  with v True show ?thesis by auto
qed

lemma lower_scheme_chars:
  "\<forall>c \<in> set scheme_chars.
     (of_char (lower_char c) :: nat) < 128 \<and> lower_char c \<noteq> CHR ''['' \<and> lower_char c \<noteq> CHR '']''"
  using scheme_chars_plain lower_char_plain by blast

lemma plain_url_lower:
  "\<forall>c \<in> set s. c \<in> set scheme_chars \<Longrightarrow> plain_url (lower s)"
  using lower_scheme_chars by (auto simp: plain_url_def lower_def)

lemma plain_url_clean:
  "plain_url s \<Longrightarrow> plain_url (clean_url s)"
  "plain_url s \<Longrightarrow> plain_url (clean_scheme s)"
  by (simp_all add: clean_url_def clean_scheme_def plain_url_parts)

lemma plain_url_split_scheme:
  assumes "plain_url url" "plain_url sch"
  shows "plain_url (fst (split_scheme url sch))" "plain_url (snd (split_scheme url sch))"
  using assms
  by (simp_all add: split_scheme_def has_scheme_def plain_url_lower plain_url_parts)

lemma netloc_ok_plain_url: "plain_url nl \<Longrightarrow> netloc_ok lib nl"
  by (auto simp: netloc_ok_def plain_url_def)

lemma checknetloc_plain_url: "plain_url nl \<Longrightarrow> checknetloc lib nl"
  by (simp add: checknetloc_def isascii_def plain_url_def)

lemma plain_url_urlsplit:
  assumes "plain_url url" "plain_url sch"
  shows "\<exists>r. urlsplit lib url sch = Inr r \<and> plain_url (scheme r) \<and> plain_url (netloc r)
           \<and> plain_url (path r) \<and> plain_url (query r) \<and> plain_url (fragment r)"
proof -
  have s: "plain_url (fst (split_scheme (clean_url url) (clean_scheme sch)))"
    and u: "plain_url (snd (split_scheme (clean_url url) (clean_scheme sch)))"
    using assms by (simp_all add: plain_url_split_scheme plain_url_clean)
  have n: "plain_url (fst (splitnetloc (snd (split_scheme (clean_url url) (clean_scheme sch)))))"
    and r: "plain_url (snd (splitnetloc (snd (split_scheme (clean_url url) (clean_scheme sch)))))"
    using u by (simp_all add: plain_url_splitnetloc)
  show ?thesis
    unfolding urlsplit_def Let_def
    using s u n r
    by (simp add: netloc_ok_plain_url checknetloc_plain_url plain_url_split_at_first)
qed

lemma urlsplit_checked:
  "urlsplit lib url sch = Inr r \<Longrightarrow> checknetloc lib (netloc r)"
  by (auto simp: urlsplit_def Let_def split: if_splits)

lemma plain_url_rpartition_last:
  "plain_url s \<Longrightarrow> plain_url (rpartition_last c s)"
  by (simp add: rpartition_last_def plain_url_parts)

lemma plain_url_splitparams:
  assumes "plain_url s"
  shows "plain_url (fst (splitparams s))" "plain_url (snd (splitparams s))"
  using assms
  by (simp_all add: splitparams_def Let_def plain_url_partition_at plain_url_parts
        plain_url_rpartition_last)

lemma plain_url_urlparse:
  assumes "plain_url url" "plain_url sch"
  shows "\<exists>p. urlparse lib url sch = Inr p \<and> plain_url_result p"
proof -
  from plain_url_urlsplit [OF assms, of lib] obtain r where
    r: "urlsplit lib url sch = Inr r" "plain_url (scheme r)" "plain_url (netloc r)"
       "plain_url (path r)" "plain_url (query r)" "plain_url (fragment r)"
    by blast
  then show ?thesis
    by (simp add: urlparse_def plain_url_result_def plain_url_splitparams)
qed

lemma plain_url_urlunparse:
  "plain_url_result p \<Longrightarrow> plain_url (urlunparse p)"
  by (simp add: urlunparse_def urlunsplit_def plain_url_result_def Let_def)


lemma plain_url_split_on:
  "plain_url s \<Longrightarrow> \<forall>w \<in> set (split_on c s). plain_url w"
  by (induction s) (auto split: list.splits)

lemma plain_url_resolve_segments:
  "\<forall>w \<in> set segs. plain_url w \<Longrightarrow> \<forall>w \<in> set acc. plain_url w \<Longrightarrow>
   \<forall>w \<in> set (resolve_segments segs acc). plain_url w"
proof (induction segs arbitrary: acc)
  case Nil
  then show ?case by simp
next
  case (Cons seg segs)
  have rest: "\<forall>w \<in> set segs. plain_url w"
    using Cons.prems(1) by simp
  have a: "\<forall>w \<in> set (butlast acc). plain_url w"
    using Cons.prems(2) by (auto dest: in_set_butlastD)
  have b: "\<forall>w \<in> set (acc @ [seg]). plain_url w"
    using Cons.prems by simp
  show ?case
    using Cons.IH [OF rest a] Cons.IH [OF rest b] Cons.IH [OF rest Cons.prems(2)]
    by simp
qed

lemma plain_url_join:
  "plain_url sep \<Longrightarrow> \<forall>w \<in> set xs. plain_url w \<Longrightarrow> plain_url (join sep xs)"
  by (induction sep xs rule: join.induct) auto


lemma plain_url_join_path:
  assumes "plain_url bpath" "plain_url pth"
  shows "plain_url (join_path bpath pth)"
proof -
  define base_parts where
    "base_parts = (if last (split_on (CHR ''/'') bpath) \<noteq> [] then butlast (split_on (CHR ''/'') bpath)
                   else split_on (CHR ''/'') bpath)"
  have bp: "\<forall>w \<in> set base_parts. plain_url w"
    using plain_url_split_on [OF assms(1), of "CHR ''/''"]
    by (auto simp: base_parts_def dest: in_set_butlastD)
  have pp: "\<forall>w \<in> set (split_on (CHR ''/'') pth). plain_url w"
    using plain_url_split_on [OF assms(2)] by simp
  define s where "s = base_parts @ split_on (CHR ''/'') pth"
  have sb: "\<forall>w \<in> set s. plain_url w"
    using bp pp by (auto simp: s_def)
  define segments where
    "segments = (if take 1 pth = ''/'' then split_on (CHR ''/'') pth
                 else take 1 s @ filter (\<lambda>x. x \<noteq> []) (take (length s - 2) (drop 1 s))
                        @ drop (max 1 (length s - 1)) s)"
  have seg: "\<forall>w \<in> set segments. plain_url w"
    using sb pp by (auto simp: segments_def dest: in_set_takeD in_set_dropD)
  have res: "\<forall>w \<in> set (resolve_segments segments []). plain_url w"
    using plain_url_resolve_segments [OF seg, of "[]"] by simp
  define resolved_path where
    "resolved_path = (if last segments \<in> {''.'', ''..''} then resolve_segments segments [] @ [[]]
                      else resolve_segments segments [])"
  have rp: "\<forall>w \<in> set resolved_path. plain_url w"
    using res by (auto simp: resolved_path_def)
  have "plain_url (join ''/'' resolved_path)"
    using rp by (intro plain_url_join) simp_all
  moreover have "join_path bpath pth =
      (if join ''/'' resolved_path = [] then ''/'' else join ''/'' resolved_path)"
    by (simp only: join_path_def Let_def resolved_path_def segments_def s_def base_parts_def)
  ultimately show ?thesis by simp
qed


lemma plain_url_urljoin:
  assumes "plain_url base" "plain_url url"
  shows "\<exists>r. urljoin lib base url = Inr r \<and> plain_url r"
proof -
  from plain_url_urlparse [OF assms(1), of "[]" lib] obtain b where
    b: "urlparse lib base [] = Inr b" "plain_url_result b"
    by auto
  then have bs: "plain_url (scheme b)"
    by (simp add: plain_url_result_def)
  from plain_url_urlparse [OF assms(2) bs, of lib] obtain u where
    u: "urlparse lib url (scheme b) = Inr u" "plain_url_result u"
    by auto
  have j: "plain_url (join_path (path b) (path u))"
    using b(2) u(2) by (simp add: plain_url_result_def plain_url_join_path)
  have r1: "plain_url (urlunparse (u\<lparr>netloc := nl, path := join_path (path b) (path u)\<rparr>))"
    if "plain_url nl" for nl
    using that u(2) j by (intro plain_url_urlunparse) (simp add: plain_url_result_def)
  have r2: "plain_url (urlunparse (u\<lparr>netloc := nl, path := path b, params := params b,
                                        query := q\<rparr>))"
    if "plain_url nl" "plain_url q" for nl q
    using that u(2) b(2) by (intro plain_url_urlunparse) (simp add: plain_url_result_def)
  have comps: "plain_url (netloc b)" "plain_url (netloc u)"
    "plain_url (query b)" "plain_url (query u)"
    using b(2) u(2) by (simp_all add: plain_url_result_def)
  show ?thesis
    unfolding urljoin_def Let_def
    using assms b(1) u(1) u(2)
    by (simp add: plain_url_urlunparse r1 r2 comps)
qed

lemma plain_url_url_netloc:
  "plain_url url \<Longrightarrow> \<exists>n. url_netloc lib url = Inr n"
  using plain_url_urlparse [of url "[]" lib] by (auto simp: url_netloc_def)


section \<open>Images (C9)\<close>

lemma images_loop_length:
  "images_loop lib b tags acc = Inr r \<Longrightarrow> length r = length acc + length tags"
  by (induction tags arbitrary: acc) (auto split: sum.splits)

lemma wa_images_loop_length:
  "wa_images_loop lib b tags acc = Inr r \<Longrightarrow> length r = length acc + length tags"
  by (induction tags arbitrary: acc) (auto split: sum.splits)

lemma images_loop_returns:
  "\<forall>img \<in> set tags. \<exists>i. image_step lib b img = Inr i \<Longrightarrow>
   \<exists>r. images_loop lib b tags acc = Inr r"
  by (induction tags arbitrary: acc) auto

lemma wa_images_loop_returns:
  "\<forall>img \<in> set tags. \<exists>i. wa_image_step lib b img = Inr i \<Longrightarrow>
   \<exists>r. wa_images_loop lib b tags acc = Inr r"
  by (induction tags arbitrary: acc) auto

lemma image_step_returns:
  assumes "plain_url b" "\<forall>v. get img ''src'' = Some v \<longrightarrow> plain_url v"
  shows "\<exists>i. image_step lib b img = Inr i"
proof (cases "get img ''src''")
  case None
  then show ?thesis by (simp add: image_step_def truthy_def)
next
  case (Some v)
  with assms have "plain_url v" by simp
  from plain_url_urljoin [OF assms(1) this, of lib] obtain r
    where "urljoin lib b v = Inr r" by blast
  with Some show ?thesis by (simp add: image_step_def Let_def)
qed

lemma wa_image_step_returns:
  assumes "plain_url b" "\<forall>v. get img ''src'' = Some v \<longrightarrow> plain_url v"
  shows "\<exists>i. wa_image_step lib b img = Inr i"
proof (cases "get img ''src''")
  case None
  then show ?thesis by (simp add: wa_image_step_def truthy_def)
next
  case (Some v)
  with assms have "plain_url v" by simp
  from plain_url_urljoin [OF assms(1) this, of lib] obtain r
    where "urljoin lib b v = Inr r" by blast
  with Some show ?thesis by (simp add: wa_image_step_def Let_def)
qed

lemma extract_images_info_returns:
  assumes "plain_url b" "attr_plain_url ''img'' ''src'' sp"
  shows "\<exists>imgs. extract_images_info lib sp b = Inr (imgs, length (find_all ''img'' sp))"
    and "\<exists>imgs. wa_extract_images_info lib sp b = Inr (imgs, length (find_all ''img'' sp))"
proof -
  have "\<forall>img \<in> set (find_all ''img'' sp). \<exists>i. image_step lib b img = Inr i"
    using assms by (auto simp: attr_plain_url_def intro!: image_step_returns split: option.splits)
  from images_loop_returns [OF this, of "[]"]
  show "\<exists>imgs. extract_images_info lib sp b = Inr (imgs, length (find_all ''img'' sp))"
    by (auto simp: extract_images_info_def)
  have "\<forall>img \<in> set (find_all ''img'' sp). \<exists>i. wa_image_step lib b img = Inr i"
    using assms by (auto simp: attr_plain_url_def intro!: wa_image_step_returns split: option.splits)
  from wa_images_loop_returns [OF this, of "[]"]
  show "\<exists>imgs. wa_extract_images_info lib sp b = Inr (imgs, length (find_all ''img'' sp))"
    by (auto simp: wa_extract_images_info_def)
qed

text \<open>
  C9: for every document and base URL, the total that \<open>extract_images_info\<close> returns is the
  number of \<open>img\<close> elements of the document, with or without \<open>src\<close> and \<open>alt\<close>, and
  is the length of the returned list of records. This holds of both implementations
  whenever they return. They raise \<open>ValueError\<close> where \<open>urljoin\<close> does, on a \<open>src\<close>
  or a base URL that \<open>urlsplit\<close> rejects; they return whenever the base URL and the
  \<open>src\<close> attributes are ASCII and have no square bracket.
\<close>

theorem extract_images_info_total:
  "(extract_images_info lib sp b = Inr (imgs, n) \<longrightarrow>
      n = length (find_all ''img'' sp) \<and> length imgs = n)
   \<and> (wa_extract_images_info lib sp b = Inr (imgs, n) \<longrightarrow>
      n = length (find_all ''img'' sp) \<and> length imgs = n)
   \<and> (plain_url b \<and> attr_plain_url ''img'' ''src'' sp \<longrightarrow>
      (\<exists>is. extract_images_info lib sp b = Inr (is, length (find_all ''img'' sp)))
      \<and> (\<exists>is. wa_extract_images_info lib sp b = Inr (is, length (find_all ''img'' sp))))"
proof (intro conjI impI)
  assume "extract_images_info lib sp b = Inr (imgs, n)"
  then show "n = length (find_all ''img'' sp)" "length imgs = n"
    by (auto simp: extract_images_info_def Let_def split: sum.splits dest: images_loop_length)
next
  assume "wa_extract_images_info lib sp b = Inr (imgs, n)"
  then show "n = length (find_all ''img'' sp)" "length imgs = n"
    by (auto simp: wa_extract_images_info_def Let_def split: sum.splits dest: wa_images_loop_length)
next
  assume "plain_url b \<and> attr_plain_url ''img'' ''src'' sp"
  then show "\<exists>is. extract_images_info lib sp b = Inr (is, length (find_all ''img'' sp))"
    "\<exists>is. wa_extract_images_info lib sp b = Inr (is, length (find_all ''img'' sp))"
    using extract_images_info_returns by blast+
qed

theorem extract_images_info_total_witness:
  "extract_images_info simple_stdlib
     [Tag ''img'' [] [], Tag ''div'' [] [Tag ''img'' [(''src'', ''a.png''), (''alt'', ''A'')] []]]
     ''https://example.com''
   = Inr ([\<lparr>src = None, alt = [], width = None, height = None\<rparr>,
           \<lparr>src = Some ''https://example.com/a.png'', alt = ''A'', width = None,
            height = None\<rparr>], 2)
   \<and> wa_extract_images_info simple_stdlib
     [Tag ''img'' [] [], Tag ''div'' [] [Tag ''img'' [(''src'', ''a.png''), (''alt'', ''A'')] []]]
     ''https://example.com''
   = Inr ([\<lparr>src = None, alt = [], width = None, height = None\<rparr>,
           \<lparr>src = Some ''https://example.com/a.png'', alt = ''A'', width = None,
            height = None\<rparr>], 2)
   \<and> length (find_all ''img''
        [Tag ''img'' [] [], Tag ''div'' [] [Tag ''img'' [(''src'', ''a.png''), (''alt'', ''A'')] []]])
     = 2
   \<and> plain_url ''https://example.com''
   \<and> attr_plain_url ''img'' ''src''
        [Tag ''img'' [] [], Tag ''div'' [] [Tag ''img'' [(''src'', ''a.png''), (''alt'', ''A'')] []]]"
proof -
  let ?doc = "[Tag ''img'' [] [], Tag ''div'' [] [Tag ''img'' [(''src'', ''a.png''), (''alt'', ''A'')] []]]"
  let ?r = "[\<lparr>src = None, alt = [], width = None, height = None\<rparr>,
             \<lparr>src = Some ''https://example.com/a.png'', alt = ''A'', width = None,
              height = None\<rparr>]"
  have e1: "extract_images_info simple_stdlib ?doc ''https://example.com'' = Inr (?r, 2)"
    by code_simp
  have e2: "wa_extract_images_info simple_stdlib ?doc ''https://example.com'' = Inr (?r, 2)"
    by code_simp
  have e3: "plain_url ''https://example.com''"
    by code_simp
  have e4: "attr_plain_url ''img'' ''src'' ?doc"
    by code_simp
  from extract_images_info_total [of simple_stdlib ?doc "''https://example.com''" ?r 2] e1 e2 e3 e4
  show ?thesis by simp
qed


section \<open>The two implementations (C2)\<close>

lemma wa_extract_headings_same:
  "extract_headings sp = Inr (wa_extract_headings sp)"
  by (simp add: extract_headings_eq wa_extract_headings_eq)

lemma wa_meta_loop_same: "wa_meta_loop ms mi = meta_loop ms mi"
  by (induction ms arbitrary: mi) (simp_all add: Let_def)

lemma wa_extract_meta_tags_same: "wa_extract_meta_tags sp = extract_meta_tags sp"
  by (simp add: wa_extract_meta_tags_def extract_meta_tags_def wa_meta_loop_same)

lemma wa_link_step_same:
  "urlparse lib b [] = Inr pb \<Longrightarrow> wa_link_step lib b pb a st = link_step lib b a st"
  by (simp add: wa_link_step_def link_step_def split: option.splits sum.splits)

lemma wa_links_loop_same:
  "urlparse lib b [] = Inr pb \<Longrightarrow> wa_links_loop lib b pb tags st = links_loop lib b tags st"
  by (induction tags arbitrary: st) (simp_all add: wa_link_step_same split: sum.splits)

lemma wa_extract_links_info_same:
  "urlparse lib b [] = Inr pb \<Longrightarrow> wa_extract_links_info lib sp b = extract_links_info lib sp b"
  by (simp add: wa_extract_links_info_def extract_links_info_def wa_links_loop_same)

lemma wa_image_step_same:
  "\<not> endswith b ''/'' \<Longrightarrow> wa_image_step lib b img = image_step lib b img"
  by (simp add: wa_image_step_def image_step_def cong: if_cong)

lemma wa_images_loop_same:
  "\<not> endswith b ''/'' \<Longrightarrow> wa_images_loop lib b tags acc = images_loop lib b tags acc"
  by (induction tags arbitrary: acc) (simp_all add: wa_image_step_same split: sum.splits)

lemma wa_extract_images_info_same:
  "\<not> endswith b ''/'' \<Longrightarrow> wa_extract_images_info lib sp b = extract_images_info lib sp b"
  by (simp add: wa_extract_images_info_def extract_images_info_def wa_images_loop_same)

text \<open>
  C2 says that the functions of \<open>website_analyzer.py\<close> and the methods of
  \<open>website_analyzer2.py\<close> give equal results at every stage, and in particular that the two
  \<open>extract_images_info\<close> return the same image records. The lemmas above show the stages
  equal for the headings, for the meta tags, for the links under a base URL that parses, and
  for the images under a base URL that does not end with a slash. Under a base URL that
  ends with a slash the image records differ: for base \<open>https://example.com/blog/\<close> and
  \<open>src\<close> \<open>../logo.png\<close> the function returns \<open>https://example.com/blog/../logo.png\<close> and
  the method \<open>https://example.com/logo.png\<close>.
\<close>

theorem extract_images_info_differ:
  "extract_images_info lib [Tag ''img'' [(''src'', ''../logo.png'')] []] ''https://example.com/blog/''
     = Inr ([\<lparr>src = Some ''https://example.com/blog/../logo.png'', alt = [],
              width = None, height = None\<rparr>], 1)
   \<and> wa_extract_images_info lib [Tag ''img'' [(''src'', ''../logo.png'')] []]
       ''https://example.com/blog/''
     = Inr ([\<lparr>src = Some ''https://example.com/logo.png'', alt = [],
              width = None, height = None\<rparr>], 1)
   \<and> extract_images_info lib [Tag ''img'' [(''src'', ''../logo.png'')] []] ''https://example.com/blog/''
     \<noteq> wa_extract_images_info lib [Tag ''img'' [(''src'', ''../logo.png'')] []]
         ''https://example.com/blog/''"
proof -
  have f: "extract_images_info lib [Tag ''img'' [(''src'', ''../logo.png'')] []]
             ''https://example.com/blog/''
           = Inr ([\<lparr>src = Some ''https://example.com/blog/../logo.png'', alt = [],
                    width = None, height = None\<rparr>], 1)"
    by code_simp
  have m: "wa_extract_images_info lib [Tag ''img'' [(''src'', ''../logo.png'')] []]
             ''https://example.com/blog/''
           = Inr ([\<lparr>src = Some ''https://example.com/logo.png'', alt = [],
                    width = None, height = None\<rparr>], 1)"
    by code_simp
  show ?thesis
    unfolding f m by simp
qed


section \<open>Links (C4, C10)\<close>

lemma link_step_Inr:
  assumes "get a ''href'' = Some h" "link_step lib b a st = Inr st1"
  shows "\<exists>d n nb. link_record lib b a = Inr (d, n) \<and> url_netloc lib b = Inr nb
           \<and> st1 = classify_link n nb d st"
  using assms
  by (auto simp: link_step_def link_record_def url_netloc_def split: sum.splits)

lemma classify_link_fields:
  "links_info (classify_link n nb d st) = links_info st @ [d]"
  "cur_internal_links (classify_link n nb d st)
     = cur_internal_links st @ (if n = nb then [d] else [])"
  "cur_external_links (classify_link n nb d st)
     = cur_external_links st @ (if n = nb then [] else [d])"
  "cur_internal_count (classify_link n nb d st)
     = cur_internal_count st + (if n = nb then 1 else 0)"
  "cur_external_count (classify_link n nb d st)
     = cur_external_count st + (if n = nb then 0 else 1)"
  by (simp_all add: classify_link_def Let_def)

lemma links_loop_char:
  assumes "links_loop lib b tags st = Inr st'" "\<forall>a \<in> set tags. get a ''href'' \<noteq> None"
  shows "\<exists>recs. map (link_record lib b) tags = map Inr recs
      \<and> links_info st' = links_info st @ map fst recs
      \<and> cur_internal_links st'
          = cur_internal_links st @ map fst (filter (\<lambda>(d, n). url_netloc lib b = Inr n) recs)
      \<and> cur_external_links st'
          = cur_external_links st @ map fst (filter (\<lambda>(d, n). url_netloc lib b \<noteq> Inr n) recs)
      \<and> cur_internal_count st'
          = cur_internal_count st + length (filter (\<lambda>(d, n). url_netloc lib b = Inr n) recs)
      \<and> cur_external_count st'
          = cur_external_count st + length (filter (\<lambda>(d, n). url_netloc lib b \<noteq> Inr n) recs)"
  using assms
proof (induction tags arbitrary: st)
  case Nil
  then show ?case by simp
next
  case (Cons a tags)
  from Cons.prems(2) obtain h where h: "get a ''href'' = Some h" by auto
  from Cons.prems(1) obtain st1 where
    s1: "link_step lib b a st = Inr st1" and rest: "links_loop lib b tags st1 = Inr st'"
    by (auto split: sum.splits)
  from link_step_Inr [OF h s1] obtain d n nb where
    rec: "link_record lib b a = Inr (d, n)" and nb: "url_netloc lib b = Inr nb"
    and st1: "st1 = classify_link n nb d st"
    by blast
  from Cons.IH [OF rest] Cons.prems(2) obtain recs where
    recs: "map (link_record lib b) tags = map Inr recs"
      "links_info st' = links_info st1 @ map fst recs"
      "cur_internal_links st'
          = cur_internal_links st1 @ map fst (filter (\<lambda>(d, n). url_netloc lib b = Inr n) recs)"
      "cur_external_links st'
          = cur_external_links st1 @ map fst (filter (\<lambda>(d, n). url_netloc lib b \<noteq> Inr n) recs)"
      "cur_internal_count st'
          = cur_internal_count st1 + length (filter (\<lambda>(d, n). url_netloc lib b = Inr n) recs)"
      "cur_external_count st'
          = cur_external_count st1 + length (filter (\<lambda>(d, n). url_netloc lib b \<noteq> Inr n) recs)"
    by auto
  show ?case
    by (rule exI [of _ "(d, n) # recs"])
       (simp add: rec recs st1 nb classify_link_fields)
qed

lemma find_all_with_href:
  "\<forall>a \<in> set (find_all_with ''a'' ''href'' sp). get a ''href'' \<noteq> None"
  by (simp add: find_all_with_def)

lemma extract_links_info_char:
  assumes "extract_links_info lib sp b = Inr r"
  shows "total_links r = length (find_all_with ''a'' ''href'' sp)
     \<and> (\<exists>recs. map (link_record lib b) (find_all_with ''a'' ''href'' sp) = map Inr recs
          \<and> internal_links r = map fst (filter (\<lambda>(d, n). url_netloc lib b = Inr n) recs)
          \<and> external_links r = map fst (filter (\<lambda>(d, n). url_netloc lib b \<noteq> Inr n) recs)
          \<and> internal_count r = length (filter (\<lambda>(d, n). url_netloc lib b = Inr n) recs)
          \<and> external_count r = length (filter (\<lambda>(d, n). url_netloc lib b \<noteq> Inr n) recs))"
proof -
  from assms obtain st where
    loop: "links_loop lib b (find_all_with ''a'' ''href'' sp) links_init = Inr st"
    and r: "r = links_result (find_all_with ''a'' ''href'' sp) st"
    by (auto simp: extract_links_info_def Let_def split: sum.splits)
  from links_loop_char [OF loop find_all_with_href]
  show ?thesis
    by (auto simp: r links_result_def links_init_def)
qed

lemma wa_extract_links_info_char:
  assumes "wa_extract_links_info lib sp b = Inr r"
  shows "extract_links_info lib sp b = Inr r"
proof -
  from assms obtain pb where "urlparse lib b [] = Inr pb"
    by (auto simp: wa_extract_links_info_def Let_def split: sum.splits)
  from wa_extract_links_info_same [OF this] assms show ?thesis by simp
qed


lemma link_step_returns:
  assumes "plain_url b" "get a ''href'' = Some h" "plain_url h"
  shows "\<exists>st1. link_step lib b a st = Inr st1"
proof -
  have "plain_url (strip h)"
    using assms(3) by (simp add: strip_def plain_url_parts)
  from plain_url_urljoin [OF assms(1) this, of lib] obtain f where
    f: "urljoin lib b (strip h) = Inr f" "plain_url f" by blast
  from plain_url_urlparse [OF assms(1), of "[]" lib] obtain pb where
    pb: "urlparse lib b [] = Inr pb" by auto
  from plain_url_urlparse [OF f(2), of "[]" lib] obtain pf where
    pf: "urlparse lib f [] = Inr pf" by auto
  show ?thesis
    by (simp add: link_step_def assms(2) f(1) pb pf)
qed

lemma links_loop_returns:
  assumes "plain_url b"
    "\<forall>a \<in> set tags. case get a ''href'' of None \<Rightarrow> False | Some h \<Rightarrow> plain_url h"
  shows "\<exists>st'. links_loop lib b tags st = Inr st'"
  using assms(2)
proof (induction tags arbitrary: st)
  case Nil
  then show ?case by simp
next
  case (Cons a tags)
  from Cons.prems obtain h where h: "get a ''href'' = Some h" "plain_url h"
    by (auto split: option.splits)
  from link_step_returns [OF assms(1) h, of lib st] obtain st1 where
    "link_step lib b a st = Inr st1" by blast
  moreover from Cons.IH [of st1] Cons.prems obtain st' where
    "links_loop lib b tags st1 = Inr st'" by auto
  ultimately show ?case by simp
qed

lemma extract_links_info_returns:
  assumes "plain_url b" "attr_plain_url ''a'' ''href'' sp"
  shows "\<exists>r. extract_links_info lib sp b = Inr r \<and> wa_extract_links_info lib sp b = Inr r"
proof -
  have "\<forall>a \<in> set (find_all_with ''a'' ''href'' sp).
          case get a ''href'' of None \<Rightarrow> False | Some h \<Rightarrow> plain_url h"
    using assms(2)
    by (auto simp: attr_plain_url_def find_all_with_def split: option.splits)
  from links_loop_returns [OF assms(1) this, of lib links_init] obtain st where
    "links_loop lib b (find_all_with ''a'' ''href'' sp) links_init = Inr st" by blast
  then have r: "extract_links_info lib sp b
                  = Inr (links_result (find_all_with ''a'' ''href'' sp) st)"
    by (simp add: extract_links_info_def)
  from plain_url_urlparse [OF assms(1), of "[]" lib] obtain pb where
    "urlparse lib b [] = Inr pb" by auto
  from wa_extract_links_info_same [OF this, of sp] r show ?thesis by simp
qed

text \<open>
  C4: for every document and base URL, \<open>extract_links_info\<close> considers exactly the \<open>a\<close>
  elements that carry an \<open>href\<close>: \<open>total_links\<close> is their number, and each of them has
  one link record (the trimmed \<open>href\<close> resolved against the base URL, and the text). A
  record is in \<open>internal_links\<close> if and only if the netloc of its resolved \<open>href\<close> equals the
  netloc of the base URL, and in \<open>external_links\<close> otherwise, in document order;
  \<open>internal_count\<close> and \<open>external_count\<close> are the lengths of the two lists and add up to
  \<open>total_links\<close>. This holds of both implementations whenever they return. They raise
  \<open>ValueError\<close> where \<open>urljoin\<close> or \<open>urlparse\<close> does, on an \<open>href\<close> or a base URL
  that \<open>urlsplit\<close> rejects; both return, and the same result, whenever the base URL and
  the \<open>href\<close> attributes are ASCII and have no square bracket.
\<close>

theorem extract_links_info_classifies:
  "(extract_links_info lib sp b = Inr r \<or> wa_extract_links_info lib sp b = Inr r \<longrightarrow>
      total_links r = length (filter (\<lambda>t. get t ''href'' \<noteq> None) (find_all ''a'' sp))
      \<and> (\<exists>recs. map (link_record lib b) (filter (\<lambda>t. get t ''href'' \<noteq> None) (find_all ''a'' sp))
                   = map Inr recs
            \<and> internal_links r = map fst (filter (\<lambda>(d, n). url_netloc lib b = Inr n) recs)
            \<and> external_links r = map fst (filter (\<lambda>(d, n). url_netloc lib b \<noteq> Inr n) recs))
      \<and> internal_count r = length (internal_links r)
      \<and> external_count r = length (external_links r)
      \<and> internal_count r + external_count r = total_links r)
   \<and> (plain_url b \<and> attr_plain_url ''a'' ''href'' sp \<longrightarrow>
      (\<exists>r'. extract_links_info lib sp b = Inr r' \<and> wa_extract_links_info lib sp b = Inr r'))"
proof (intro conjI impI)
  assume "extract_links_info lib sp b = Inr r \<or> wa_extract_links_info lib sp b = Inr r"
  then have "extract_links_info lib sp b = Inr r"
    using wa_extract_links_info_char by blast
  from extract_links_info_char [OF this] obtain recs where
    t: "total_links r = length (find_all_with ''a'' ''href'' sp)"
    and m: "map (link_record lib b) (find_all_with ''a'' ''href'' sp) = map Inr recs"
    and i: "internal_links r = map fst (filter (\<lambda>(d, n). url_netloc lib b = Inr n) recs)"
    and e: "external_links r = map fst (filter (\<lambda>(d, n). url_netloc lib b \<noteq> Inr n) recs)"
    and ic: "internal_count r = length (filter (\<lambda>(d, n). url_netloc lib b = Inr n) recs)"
    and ec: "external_count r = length (filter (\<lambda>(d, n). url_netloc lib b \<noteq> Inr n) recs)"
    by blast
  have len: "length recs = length (find_all_with ''a'' ''href'' sp)"
    using arg_cong [OF m, of length] by simp
  have split: "length (filter (\<lambda>(d, n). url_netloc lib b = Inr n) recs)
                 + length (filter (\<lambda>(d, n). url_netloc lib b \<noteq> Inr n) recs) = length recs"
    by (induction recs) auto
  show "total_links r = length (filter (\<lambda>t. get t ''href'' \<noteq> None) (find_all ''a'' sp))"
    using t by (simp add: find_all_with_def)
  show "\<exists>recs. map (link_record lib b) (filter (\<lambda>t. get t ''href'' \<noteq> None) (find_all ''a'' sp))
                   = map Inr recs
            \<and> internal_links r = map fst (filter (\<lambda>(d, n). url_netloc lib b = Inr n) recs)
            \<and> external_links r = map fst (filter (\<lambda>(d, n). url_netloc lib b \<noteq> Inr n) recs)"
    using m i e unfolding find_all_with_def by blast
  show "internal_count r = length (internal_links r)"
    using ic i by simp
  show "external_count r = length (external_links r)"
    using ec e by simp
  show "internal_count r + external_count r = total_links r"
    using ic ec t len split by simp
next
  assume "plain_url b \<and> attr_plain_url ''a'' ''href'' sp"
  then show "\<exists>r'. extract_links_info lib sp b = Inr r' \<and> wa_extract_links_info lib sp b = Inr r'"
    using extract_links_info_returns by blast
qed


theorem extract_links_info_classifies_witness:
  "extract_links_info simple_stdlib
     [Tag ''a'' [(''href'', ''/about'')] [NavigableString ''About''],
      Tag ''a'' [(''href'', ''https://other.com'')] [NavigableString ''Other''],
      Tag ''a'' [] [NavigableString ''anchor'']]
     ''https://example.com''
   = Inr \<lparr>total_links = 2,
          internal_links = [\<lparr>href = ''https://example.com/about'', link_text = ''About''\<rparr>],
          external_links = [\<lparr>href = ''https://other.com'', link_text = ''Other''\<rparr>],
          internal_count = 1, external_count = 1\<rparr>
   \<and> wa_extract_links_info simple_stdlib
     [Tag ''a'' [(''href'', ''/about'')] [NavigableString ''About''],
      Tag ''a'' [(''href'', ''https://other.com'')] [NavigableString ''Other''],
      Tag ''a'' [] [NavigableString ''anchor'']]
     ''https://example.com''
   = Inr \<lparr>total_links = 2,
          internal_links = [\<lparr>href = ''https://example.com/about'', link_text = ''About''\<rparr>],
          external_links = [\<lparr>href = ''https://other.com'', link_text = ''Other''\<rparr>],
          internal_count = 1, external_count = 1\<rparr>
   \<and> plain_url ''https://example.com''
   \<and> attr_plain_url ''a'' ''href''
     [Tag ''a'' [(''href'', ''/about'')] [NavigableString ''About''],
      Tag ''a'' [(''href'', ''https://other.com'')] [NavigableString ''Other''],
      Tag ''a'' [] [NavigableString ''anchor'']]"
proof -
  let ?doc = "[Tag ''a'' [(''href'', ''/about'')] [NavigableString ''About''],
      Tag ''a'' [(''href'', ''https://other.com'')] [NavigableString ''Other''],
      Tag ''a'' [] [NavigableString ''anchor'']]"
  let ?r = "\<lparr>total_links = 2,
          internal_links = [\<lparr>href = ''https://example.com/about'', link_text = ''About''\<rparr>],
          external_links = [\<lparr>href = ''https://other.com'', link_text = ''Other''\<rparr>],
          internal_count = 1, external_count = 1\<rparr>"
  have e1: "extract_links_info simple_stdlib ?doc ''https://example.com'' = Inr ?r"
    by code_simp
  have e2: "wa_extract_links_info simple_stdlib ?doc ''https://example.com'' = Inr ?r"
    by code_simp
  have e3: "plain_url ''https://example.com''"
    by code_simp
  have e4: "attr_plain_url ''a'' ''href'' ?doc"
    by code_simp
  from extract_links_info_classifies [of simple_stdlib ?doc "''https://example.com''" ?r] e1 e2 e3 e4
  show ?thesis by simp
qed

lemma strip_all_space:
  assumes "\<forall>c \<in> set h. isspace c"
  shows "strip h = []"
proof -
  have d: "dropWhile isspace h = []"
    using assms by simp
  show ?thesis
    unfolding strip_def d by simp
qed

lemma link_record_netloc:
  "link_record lib b a = Inr (d, n) \<Longrightarrow> url_netloc lib (href d) = Inr n"
  by (auto simp: link_record_def split: sum.splits)

lemma link_record_empty_href:
  assumes "get a ''href'' = Some h" "strip h = []" "link_record lib b a = Inr (d, n)"
  shows "d = \<lparr>href = b, link_text = get_text [] a\<rparr> \<and> url_netloc lib b = Inr n"
proof -
  have "urljoin lib b [] = Inr b"
    by (simp add: urljoin_def)
  with assms show ?thesis
    by (auto simp: link_record_def split: sum.splits)
qed

lemma empty_href_internal:
  assumes r: "extract_links_info lib sp b = Inr r"
    and a: "a \<in> set (find_all_with ''a'' ''href'' sp)"
    and h: "get a ''href'' = Some h" "strip h = []"
  shows "total_links r = length (find_all_with ''a'' ''href'' sp)"
    and "\<lparr>href = b, link_text = get_text [] a\<rparr> \<in> set (internal_links r)"
    and "\<lparr>href = b, link_text = get_text [] a\<rparr> \<notin> set (external_links r)"
proof -
  from extract_links_info_char [OF r] obtain recs where
    t: "total_links r = length (find_all_with ''a'' ''href'' sp)"
    and m: "map (link_record lib b) (find_all_with ''a'' ''href'' sp) = map Inr recs"
    and i: "internal_links r = map fst (filter (\<lambda>(d, n). url_netloc lib b = Inr n) recs)"
    and e: "external_links r = map fst (filter (\<lambda>(d, n). url_netloc lib b \<noteq> Inr n) recs)"
    by blast
  show "total_links r = length (find_all_with ''a'' ''href'' sp)" by (rule t)
  have "link_record lib b a \<in> set (map Inr recs)"
    using a m [symmetric] by simp
  then obtain d n where dn: "(d, n) \<in> set recs" "link_record lib b a = Inr (d, n)"
    by auto
  from link_record_empty_href [OF h dn(2)]
  have d: "d = \<lparr>href = b, link_text = get_text [] a\<rparr>" and n: "url_netloc lib b = Inr n"
    by simp_all
  show "\<lparr>href = b, link_text = get_text [] a\<rparr> \<in> set (internal_links r)"
    unfolding i using dn(1) d n by force
  show "\<lparr>href = b, link_text = get_text [] a\<rparr> \<notin> set (external_links r)"
  proof
    assume "\<lparr>href = b, link_text = get_text [] a\<rparr> \<in> set (external_links r)"
    then obtain n' where n': "(\<lparr>href = b, link_text = get_text [] a\<rparr>, n') \<in> set recs"
      "url_netloc lib b \<noteq> Inr n'"
      unfolding e by auto
    then have "Inr (\<lparr>href = b, link_text = get_text [] a\<rparr>, n')
                 \<in> set (map (link_record lib b) (find_all_with ''a'' ''href'' sp))"
      unfolding m by simp
    then obtain a' where
      "link_record lib b a' = Inr (\<lparr>href = b, link_text = get_text [] a\<rparr>, n')"
      by auto
    from link_record_netloc [OF this] n'(2) show False by simp
  qed
qed

text \<open>
  C10: an \<open>a\<close> element whose \<open>href\<close> is empty or consists of white space only is still
  counted in \<open>total_links\<close>; its record has exactly the base URL as resolved \<open>href\<close>, is in
  \<open>internal_links\<close> and is not in \<open>external_links\<close>. This holds of both implementations
  whenever they return (see \<open>extract_links_info_returns\<close> for when they do).
\<close>

theorem blank_href_is_internal:
  assumes "a \<in> set (find_all_with ''a'' ''href'' sp)"
    and "get a ''href'' = Some h"
    and "\<forall>c \<in> set h. isspace c"
    and "extract_links_info lib sp b = Inr r \<or> wa_extract_links_info lib sp b = Inr r"
  shows "total_links r = length (find_all_with ''a'' ''href'' sp)
     \<and> 0 < total_links r
     \<and> \<lparr>href = b, link_text = get_text [] a\<rparr> \<in> set (internal_links r)
     \<and> \<lparr>href = b, link_text = get_text [] a\<rparr> \<notin> set (external_links r)"
proof -
  have r: "extract_links_info lib sp b = Inr r"
    using assms(4) wa_extract_links_info_char by blast
  have s: "strip h = []"
    using assms(3) by (rule strip_all_space)
  from empty_href_internal [OF r assms(1) assms(2) s]
  have t: "total_links r = length (find_all_with ''a'' ''href'' sp)"
    and i: "\<lparr>href = b, link_text = get_text [] a\<rparr> \<in> set (internal_links r)"
    and e: "\<lparr>href = b, link_text = get_text [] a\<rparr> \<notin> set (external_links r)"
    by simp_all
  have "0 < length (find_all_with ''a'' ''href'' sp)"
    using assms(1) by (cases "find_all_with ''a'' ''href'' sp") auto
  with t i e show ?thesis by simp
qed

theorem blank_href_is_internal_witness:
  "Tag ''a'' [(''href'', ''  '')] [NavigableString ''here'']
     \<in> set (find_all_with ''a'' ''href''
         [Tag ''p'' [] [Tag ''a'' [(''href'', ''  '')] [NavigableString ''here'']]])
   \<and> get (Tag ''a'' [(''href'', ''  '')] [NavigableString ''here'']) ''href'' = Some ''  ''
   \<and> list_all isspace ''  ''
   \<and> extract_links_info simple_stdlib
        [Tag ''p'' [] [Tag ''a'' [(''href'', ''  '')] [NavigableString ''here'']]]
        ''https://example.com/page''
      = Inr \<lparr>total_links = 1,
             internal_links = [\<lparr>href = ''https://example.com/page'', link_text = ''here''\<rparr>],
             external_links = [], internal_count = 1, external_count = 0\<rparr>
   \<and> wa_extract_links_info simple_stdlib
        [Tag ''p'' [] [Tag ''a'' [(''href'', ''  '')] [NavigableString ''here'']]]
        ''https://example.com/page''
      = Inr \<lparr>total_links = 1,
             internal_links = [\<lparr>href = ''https://example.com/page'', link_text = ''here''\<rparr>],
             external_links = [], internal_count = 1, external_count = 0\<rparr>"
proof -
  let ?a = "Tag ''a'' [(''href'', ''  '')] [NavigableString ''here'']"
  let ?doc = "[Tag ''p'' [] [?a]]"
  let ?r = "\<lparr>total_links = 1,
             internal_links = [\<lparr>href = ''https://example.com/page'', link_text = ''here''\<rparr>],
             external_links = [], internal_count = 1, external_count = 0\<rparr>"
  have e1: "?a \<in> set (find_all_with ''a'' ''href'' ?doc)"
    by (simp add: find_all_with_def find_all_def)
  have e2: "get ?a ''href'' = Some ''  ''"
    by simp
  have e3: "\<forall>c \<in> set ''  ''. isspace c"
    by (simp add: isspace_def)
  have e4: "extract_links_info simple_stdlib ?doc ''https://example.com/page'' = Inr ?r"
    by code_simp
  have e5: "wa_extract_links_info simple_stdlib ?doc ''https://example.com/page'' = Inr ?r"
    by code_simp
  from blank_href_is_internal [OF e1 e2 e3, of simple_stdlib "''https://example.com/page''" ?r] e4
  have "\<lparr>href = ''https://example.com/page'', link_text = get_text [] ?a\<rparr>
          \<in> set (internal_links ?r)"
    by simp
  with e1 e2 e3 e4 e5 show ?thesis
    by (simp add: list_all_iff)
qed


section \<open>Meta tags (C7)\<close>









section \<open>The analysis (C3, C5)\<close>

lemma analyze_website_fetched:
  assumes "fetch_html url = Some sp" "analyze_website lib fetch_html url = Inr r"
  shows "\<exists>links imgs n.
      extract_links_info lib sp url = Inr links \<and> extract_images_info lib sp url = Inr (imgs, n)
      \<and> r = [(''url'', VStr url),
              (''headings'', VHeadings (wa_extract_headings sp)),
              (''images'', VImages \<lparr>total_images = n, image_details = imgs\<rparr>),
              (''links'', VLinks links),
              (''meta_tags'', VMeta (extract_meta_tags sp)),
              (''word_count'',
                 VInt (case find ''body'' sp of None \<Rightarrow> 0
                       | Some b \<Rightarrow> length (split_ws (get_text '' '' b) []))),
              (''paragraph_count'',
                 VInt (case find ''body'' sp of None \<Rightarrow> 0
                       | Some b \<Rightarrow> length (find_all ''p'' (contents b)))),
              (''stylesheet_count'', VInt (length (find_all_rel ''link'' ''stylesheet'' sp))),
              (''script_count'', VInt (length (find_all_with ''script'' ''src'' sp)))]"
proof -
  from assms obtain links where links: "extract_links_info lib sp url = Inr links"
    by (auto simp: analyze_website_def wa_extract_headings_same split: sum.splits)
  from assms links obtain imgs n where imgs: "extract_images_info lib sp url = Inr (imgs, n)"
    by (auto simp: analyze_website_def wa_extract_headings_same Let_def split: sum.splits)
  show ?thesis
  proof (cases "find ''body'' sp")
    case None
    with assms links imgs show ?thesis
      by (simp add: analyze_website_def wa_extract_headings_same Let_def)
  next
    case (Some b)
    with assms links imgs show ?thesis
      by (simp add: analyze_website_def wa_extract_headings_same Let_def)
  qed
qed

lemma wa_analyze_website_fetched:
  assumes "fetch_html url = Some sp" "wa_analyze_website lib fetch_html url = Inr r"
  shows "\<exists>links imgs n.
      wa_extract_links_info lib sp url = Inr links
      \<and> wa_extract_images_info lib sp url = Inr (imgs, n)
      \<and> r = [(''url'', VStr url),
              (''headings'', VHeadings (wa_extract_headings sp)),
              (''images'', VImages \<lparr>total_images = n, image_details = imgs\<rparr>),
              (''links'', VLinks links),
              (''meta_tags'', VMeta (extract_meta_tags sp)),
              (''word_count'',
                 VInt (case find ''body'' sp of None \<Rightarrow> 0
                       | Some b \<Rightarrow> length (split_ws (get_text '' '' b) []))),
              (''paragraph_count'',
                 VInt (case find ''body'' sp of None \<Rightarrow> 0
                       | Some b \<Rightarrow> length (find_all ''p'' (contents b)))),
              (''stylesheet_count'', VInt (length (find_all_rel ''link'' ''stylesheet'' sp))),
              (''script_count'', VInt (length (find_all_with ''script'' ''src'' sp)))]"
proof -
  from assms obtain links where links: "wa_extract_links_info lib sp url = Inr links"
    by (auto simp: wa_analyze_website_def split: sum.splits)
  from assms links obtain imgs n where imgs: "wa_extract_images_info lib sp url = Inr (imgs, n)"
    by (auto simp: wa_analyze_website_def Let_def split: sum.splits)
  show ?thesis
  proof (cases "find ''body'' sp")
    case None
    with assms links imgs show ?thesis
      by (simp add: wa_analyze_website_def wa_extract_meta_tags_same Let_def)
  next
    case (Some b)
    with assms links imgs show ?thesis
      by (simp add: wa_analyze_website_def wa_extract_meta_tags_same Let_def)
  qed
qed

lemma analyze_website_returns:
  assumes "fetch_html url = Some sp" "plain_url url"
    "attr_plain_url ''a'' ''href'' sp" "attr_plain_url ''img'' ''src'' sp"
  shows "\<exists>r. analyze_website lib fetch_html url = Inr r"
    and "\<exists>r. wa_analyze_website lib fetch_html url = Inr r"
proof -
  from extract_links_info_returns [OF assms(2,3), of lib] obtain links where
    links: "extract_links_info lib sp url = Inr links" "wa_extract_links_info lib sp url = Inr links"
    by blast
  from extract_images_info_returns [OF assms(2,4), of lib] obtain i1 i2 where
    imgs: "extract_images_info lib sp url = Inr (i1, length (find_all ''img'' sp))"
      "wa_extract_images_info lib sp url = Inr (i2, length (find_all ''img'' sp))"
    by blast
  show "\<exists>r. analyze_website lib fetch_html url = Inr r"
    using assms(1) links(1) imgs(1)
    by (simp add: analyze_website_def wa_extract_headings_same Let_def)
  show "\<exists>r. wa_analyze_website lib fetch_html url = Inr r"
    using assms(1) links(2) imgs(2)
    by (simp add: wa_analyze_website_def Let_def)
qed


text \<open>
  C5: when the fetch step fails for a URL, \<open>analyze_website\<close> returns exactly the dictionary
  with the one key \<open>error\<close> and the value \<open>Could not fetch or parse\<close> followed by the
  URL. No extractor runs: the result does not depend on the document or on the URL
  library, and it is a returned value, although an extractor can raise. A returned
  result is either this dictionary, and then the fetch failed, or the dictionary with
  the nine keys of the analysis and no key \<open>error\<close>, and then the fetch succeeded. Both
  implementations.
\<close>

theorem analyze_website_error_variant:
  "(fetch_html url = None \<longrightarrow>
      analyze_website lib fetch_html url
        = Inr [(''error'', VStr (''Could not fetch or parse '' @ url))]
      \<and> wa_analyze_website lib fetch_html url
        = Inr [(''error'', VStr (''Could not fetch or parse '' @ url))])
   \<and> (analyze_website lib fetch_html url = Inr r \<or> wa_analyze_website lib fetch_html url = Inr r
      \<longrightarrow>
      (fetch_html url = None \<and> r = [(''error'', VStr (''Could not fetch or parse '' @ url))])
      \<or> (fetch_html url \<noteq> None
          \<and> map fst r = [''url'', ''headings'', ''images'', ''links'', ''meta_tags'',
                          ''word_count'', ''paragraph_count'', ''stylesheet_count'',
                          ''script_count'']
          \<and> map_of r ''error'' = None))"
proof (intro conjI impI)
  assume "fetch_html url = None"
  then show "analyze_website lib fetch_html url
               = Inr [(''error'', VStr (''Could not fetch or parse '' @ url))]"
    "wa_analyze_website lib fetch_html url
               = Inr [(''error'', VStr (''Could not fetch or parse '' @ url))]"
    by (simp_all add: analyze_website_def wa_analyze_website_def)
next
  assume r: "analyze_website lib fetch_html url = Inr r
             \<or> wa_analyze_website lib fetch_html url = Inr r"
  show "(fetch_html url = None \<and> r = [(''error'', VStr (''Could not fetch or parse '' @ url))])
      \<or> (fetch_html url \<noteq> None
          \<and> map fst r = [''url'', ''headings'', ''images'', ''links'', ''meta_tags'',
                          ''word_count'', ''paragraph_count'', ''stylesheet_count'',
                          ''script_count'']
          \<and> map_of r ''error'' = None)"
  proof (cases "fetch_html url")
    case None
    with r show ?thesis
      by (auto simp: analyze_website_def wa_analyze_website_def)
  next
    case (Some sp)
    from r show ?thesis
    proof
      assume "analyze_website lib fetch_html url = Inr r"
      from analyze_website_fetched [OF Some this] Some show ?thesis by auto
    next
      assume "wa_analyze_website lib fetch_html url = Inr r"
      from wa_analyze_website_fetched [OF Some this] Some show ?thesis by auto
    qed
  qed
qed

theorem analyze_website_error_variant_witness:
  "unreachable ''https://example.com/missing'' = None
   \<and> analyze_website simple_stdlib unreachable ''https://example.com/missing''
     = Inr [(''error'', VStr ''Could not fetch or parse https://example.com/missing'')]
   \<and> wa_analyze_website simple_stdlib unreachable ''https://example.com/missing''
     = Inr [(''error'', VStr ''Could not fetch or parse https://example.com/missing'')]"
  using analyze_website_error_variant
    [of unreachable "''https://example.com/missing''" simple_stdlib
        "[(''error'', VStr ''Could not fetch or parse https://example.com/missing'')]"]
  by (simp add: unreachable_def)


text \<open>
  C3 says that for a document without a \<open>body\<close> element all four content metrics are zero.
  \<open>analyze_website\<close> sets \<open>stylesheet_count\<close> and \<open>script_count\<close> after, and outside of, the
  test for the \<open>body\<close> element: a document that has a stylesheet link and a script with a
  \<open>src\<close>, and no \<open>body\<close>, gets the counts 1 and 1.
\<close>

theorem metrics_without_body_counterexample:
  "find ''body''
     [Tag ''link'' [(''rel'', ''stylesheet''), (''href'', ''s.css'')] [],
      Tag ''script'' [(''src'', ''a.js'')] []] = None
   \<and> analyze_website simple_stdlib
       (serve [Tag ''link'' [(''rel'', ''stylesheet''), (''href'', ''s.css'')] [],
               Tag ''script'' [(''src'', ''a.js'')] []])
       ''https://example.com''
     = Inr [(''url'', VStr ''https://example.com''),
            (''headings'', VHeadings [(''h1'', []), (''h2'', []), (''h3'', []), (''h4'', []),
                                      (''h5'', []), (''h6'', [])]),
            (''images'', VImages \<lparr>total_images = 0, image_details = []\<rparr>),
            (''links'', VLinks \<lparr>total_links = 0, internal_links = [], external_links = [],
                                internal_count = 0, external_count = 0\<rparr>),
            (''meta_tags'', VMeta []),
            (''word_count'', VInt 0),
            (''paragraph_count'', VInt 0),
            (''stylesheet_count'', VInt 1),
            (''script_count'', VInt 1)]"
  by code_simp

text \<open>
  C3 as amended: for every fetched document, with or without a \<open>body\<close> element,
  \<open>stylesheet_count\<close> of the analysis result is the number of \<open>link\<close> elements of the
  whole document whose \<open>rel\<close> has the value \<open>stylesheet\<close>, and \<open>script_count\<close> the
  number of its \<open>script\<close> elements with a \<open>src\<close>; for a document without a \<open>body\<close>
  element, \<open>word_count\<close> and \<open>paragraph_count\<close> are zero. This holds of both
  implementations whenever they return. They raise \<open>ValueError\<close> where an extractor of
  links or images does; they return whenever the URL and the \<open>href\<close> and \<open>src\<close>
  attributes of the links and images are ASCII and have no square bracket.
\<close>

theorem metrics_without_body:
  assumes "fetch_html url = Some sp"
  shows "(analyze_website lib fetch_html url = Inr r \<or> wa_analyze_website lib fetch_html url = Inr r
          \<longrightarrow>
          map_of r ''stylesheet_count''
              = Some (VInt (length (find_all_rel ''link'' ''stylesheet'' sp)))
          \<and> map_of r ''script_count''
              = Some (VInt (length (find_all_with ''script'' ''src'' sp)))
          \<and> (find ''body'' sp = None \<longrightarrow>
                map_of r ''word_count'' = Some (VInt 0)
                \<and> map_of r ''paragraph_count'' = Some (VInt 0)))
     \<and> (plain_url url \<and> attr_plain_url ''a'' ''href'' sp
          \<and> attr_plain_url ''img'' ''src'' sp \<longrightarrow>
          (\<exists>r1. analyze_website lib fetch_html url = Inr r1)
          \<and> (\<exists>r2. wa_analyze_website lib fetch_html url = Inr r2))"
proof (intro conjI impI)
  assume r: "analyze_website lib fetch_html url = Inr r
             \<or> wa_analyze_website lib fetch_html url = Inr r"
  have m: "map_of r ''stylesheet_count''
              = Some (VInt (length (find_all_rel ''link'' ''stylesheet'' sp)))
          \<and> map_of r ''script_count''
              = Some (VInt (length (find_all_with ''script'' ''src'' sp)))
          \<and> map_of r ''word_count''
              = Some (VInt (case find ''body'' sp of None \<Rightarrow> 0
                            | Some b \<Rightarrow> length (split_ws (get_text '' '' b) [])))
          \<and> map_of r ''paragraph_count''
              = Some (VInt (case find ''body'' sp of None \<Rightarrow> 0
                            | Some b \<Rightarrow> length (find_all ''p'' (contents b))))"
    using r
  proof
    assume "analyze_website lib fetch_html url = Inr r"
    from analyze_website_fetched [OF assms this] show ?thesis by auto
  next
    assume "wa_analyze_website lib fetch_html url = Inr r"
    from wa_analyze_website_fetched [OF assms this] show ?thesis by auto
  qed
  from m show "map_of r ''stylesheet_count''
                 = Some (VInt (length (find_all_rel ''link'' ''stylesheet'' sp)))"
    "map_of r ''script_count'' = Some (VInt (length (find_all_with ''script'' ''src'' sp)))"
    by simp_all
  assume "find ''body'' sp = None"
  with m show "map_of r ''word_count'' = Some (VInt 0)"
    "map_of r ''paragraph_count'' = Some (VInt 0)"
    by simp_all
next
  assume "plain_url url \<and> attr_plain_url ''a'' ''href'' sp
          \<and> attr_plain_url ''img'' ''src'' sp"
  then show "\<exists>r1. analyze_website lib fetch_html url = Inr r1"
    "\<exists>r2. wa_analyze_website lib fetch_html url = Inr r2"
    using analyze_website_returns [where fetch_html = fetch_html and url = url and sp = sp]
      assms by blast+
qed

theorem metrics_without_body_witness:
  "serve [Tag ''link'' [(''rel'', ''stylesheet''), (''href'', ''s.css'')] [],
      Tag ''p'' [] [NavigableString ''two words'']] ''https://example.com''
     = Some [Tag ''link'' [(''rel'', ''stylesheet''), (''href'', ''s.css'')] [],
      Tag ''p'' [] [NavigableString ''two words'']]
   \<and> find ''body'' [Tag ''link'' [(''rel'', ''stylesheet''), (''href'', ''s.css'')] [],
      Tag ''p'' [] [NavigableString ''two words'']] = None
   \<and> analyze_website simple_stdlib
       (serve [Tag ''link'' [(''rel'', ''stylesheet''), (''href'', ''s.css'')] [],
      Tag ''p'' [] [NavigableString ''two words'']]) ''https://example.com''
     = Inr [(''url'', VStr ''https://example.com''),
            (''headings'', VHeadings [(''h1'', []), (''h2'', []), (''h3'', []), (''h4'', []),
                                      (''h5'', []), (''h6'', [])]),
            (''images'', VImages \<lparr>total_images = 0, image_details = []\<rparr>),
            (''links'', VLinks \<lparr>total_links = 0, internal_links = [], external_links = [],
                                internal_count = 0, external_count = 0\<rparr>),
            (''meta_tags'', VMeta []),
            (''word_count'', VInt 0),
            (''paragraph_count'', VInt 0),
            (''stylesheet_count'', VInt 1),
            (''script_count'', VInt 0)]
   \<and> wa_analyze_website simple_stdlib
       (serve [Tag ''link'' [(''rel'', ''stylesheet''), (''href'', ''s.css'')] [],
      Tag ''p'' [] [NavigableString ''two words'']]) ''https://example.com''
     = Inr [(''url'', VStr ''https://example.com''),
            (''headings'', VHeadings [(''h1'', []), (''h2'', []), (''h3'', []), (''h4'', []),
                                      (''h5'', []), (''h6'', [])]),
            (''images'', VImages \<lparr>total_images = 0, image_details = []\<rparr>),
            (''links'', VLinks \<lparr>total_links = 0, internal_links = [], external_links = [],
                                internal_count = 0, external_count = 0\<rparr>),
            (''meta_tags'', VMeta []),
            (''word_count'', VInt 0),
            (''paragraph_count'', VInt 0),
            (''stylesheet_count'', VInt 1),
            (''script_count'', VInt 0)]
   \<and> plain_url ''https://example.com''
   \<and> attr_plain_url ''a'' ''href'' [Tag ''link'' [(''rel'', ''stylesheet''), (''href'', ''s.css'')] [],
      Tag ''p'' [] [NavigableString ''two words'']]
   \<and> attr_plain_url ''img'' ''src'' [Tag ''link'' [(''rel'', ''stylesheet''), (''href'', ''s.css'')] [],
      Tag ''p'' [] [NavigableString ''two words'']]
   \<and> analyze_website simple_stdlib
       (serve [Tag ''link'' [(''rel'', ''stylesheet''), (''href'', ''s.css'')] [],
      Tag ''body'' [] [Tag ''p'' [] [NavigableString ''two words''],
                       Tag ''script'' [(''src'', ''a.js'')] []]]) ''https://example.com''
     = Inr [(''url'', VStr ''https://example.com''),
            (''headings'', VHeadings [(''h1'', []), (''h2'', []), (''h3'', []), (''h4'', []),
                                      (''h5'', []), (''h6'', [])]),
            (''images'', VImages \<lparr>total_images = 0, image_details = []\<rparr>),
            (''links'', VLinks \<lparr>total_links = 0, internal_links = [], external_links = [],
                                internal_count = 0, external_count = 0\<rparr>),
            (''meta_tags'', VMeta []),
            (''word_count'', VInt 2),
            (''paragraph_count'', VInt 1),
            (''stylesheet_count'', VInt 1),
            (''script_count'', VInt 1)]
   \<and> wa_analyze_website simple_stdlib
       (serve [Tag ''link'' [(''rel'', ''stylesheet''), (''href'', ''s.css'')] [],
      Tag ''body'' [] [Tag ''p'' [] [NavigableString ''two words''],
                       Tag ''script'' [(''src'', ''a.js'')] []]]) ''https://example.com''
     = Inr [(''url'', VStr ''https://example.com''),
            (''headings'', VHeadings [(''h1'', []), (''h2'', []), (''h3'', []), (''h4'', []),
                                      (''h5'', []), (''h6'', [])]),
            (''images'', VImages \<lparr>total_images = 0, image_details = []\<rparr>),
            (''links'', VLinks \<lparr>total_links = 0, internal_links = [], external_links = [],
                                internal_count = 0, external_count = 0\<rparr>),
            (''meta_tags'', VMeta []),
            (''word_count'', VInt 2),
            (''paragraph_count'', VInt 1),
            (''stylesheet_count'', VInt 1),
            (''script_count'', VInt 1)]"
proof -
  let ?doc = "[Tag ''link'' [(''rel'', ''stylesheet''), (''href'', ''s.css'')] [],
      Tag ''p'' [] [NavigableString ''two words'']]"
  let ?r = "[(''url'', VStr ''https://example.com''),
            (''headings'', VHeadings [(''h1'', []), (''h2'', []), (''h3'', []), (''h4'', []),
                                      (''h5'', []), (''h6'', [])]),
            (''images'', VImages \<lparr>total_images = 0, image_details = []\<rparr>),
            (''links'', VLinks \<lparr>total_links = 0, internal_links = [], external_links = [],
                                internal_count = 0, external_count = 0\<rparr>),
            (''meta_tags'', VMeta []),
            (''word_count'', VInt 0),
            (''paragraph_count'', VInt 0),
            (''stylesheet_count'', VInt 1),
            (''script_count'', VInt 0)]"
  let ?doc2 = "[Tag ''link'' [(''rel'', ''stylesheet''), (''href'', ''s.css'')] [],
      Tag ''body'' [] [Tag ''p'' [] [NavigableString ''two words''],
                       Tag ''script'' [(''src'', ''a.js'')] []]]"
  let ?r2 = "[(''url'', VStr ''https://example.com''),
            (''headings'', VHeadings [(''h1'', []), (''h2'', []), (''h3'', []), (''h4'', []),
                                      (''h5'', []), (''h6'', [])]),
            (''images'', VImages \<lparr>total_images = 0, image_details = []\<rparr>),
            (''links'', VLinks \<lparr>total_links = 0, internal_links = [], external_links = [],
                                internal_count = 0, external_count = 0\<rparr>),
            (''meta_tags'', VMeta []),
            (''word_count'', VInt 2),
            (''paragraph_count'', VInt 1),
            (''stylesheet_count'', VInt 1),
            (''script_count'', VInt 1)]"
  have e1: "serve ?doc ''https://example.com'' = Some ?doc"
    by (simp add: serve_def)
  have e2: "find ''body'' ?doc = None"
    by code_simp
  have e3: "analyze_website simple_stdlib (serve ?doc) ''https://example.com'' = Inr ?r"
    by code_simp
  have e4: "wa_analyze_website simple_stdlib (serve ?doc) ''https://example.com'' = Inr ?r"
    by code_simp
  have e5: "plain_url ''https://example.com''"
    by code_simp
  have e6: "attr_plain_url ''a'' ''href'' ?doc"
    by code_simp
  have e7: "attr_plain_url ''img'' ''src'' ?doc"
    by code_simp
  have f1: "serve ?doc2 ''https://example.com'' = Some ?doc2"
    by (simp add: serve_def)
  have f3: "analyze_website simple_stdlib (serve ?doc2) ''https://example.com'' = Inr ?r2"
    by code_simp
  have f4: "wa_analyze_website simple_stdlib (serve ?doc2) ''https://example.com'' = Inr ?r2"
    by code_simp
  from metrics_without_body
         [where fetch_html = "serve ?doc" and url = "''https://example.com''" and sp = ?doc
            and lib = simple_stdlib and r = ?r]
       metrics_without_body
         [where fetch_html = "serve ?doc2" and url = "''https://example.com''" and sp = ?doc2
            and lib = simple_stdlib and r = ?r2]
       e1 e2 e3 e4 e5 e6 e7 f1 f3 f4
  show ?thesis by simp
qed


section \<open>Resolution of absolute URLs (C6)\<close>

lemma urlsplit_scheme:
  "urlsplit lib u s = Inr r \<Longrightarrow> scheme r = fst (split_scheme (clean_url u) (clean_scheme s))"
  by (auto simp: urlsplit_def Let_def split: if_splits)

lemma urlsplit_default_scheme:
  "has_scheme (clean_url u) \<Longrightarrow> urlsplit lib u s = urlsplit lib u s'"
  by (simp add: urlsplit_def split_scheme_def)

lemma urlparse_default_scheme:
  "has_scheme (clean_url u) \<Longrightarrow> urlparse lib u s = urlparse lib u s'"
  using urlsplit_default_scheme [of u lib s s'] by (simp add: urlparse_def)

lemma urlparse_scheme:
  assumes "urlparse lib u [] = Inr p" "scheme p \<noteq> []"
  shows "has_scheme (clean_url u)"
proof (rule ccontr)
  assume n: "\<not> has_scheme (clean_url u)"
  from assms(1) obtain r where r: "urlsplit lib u [] = Inr r" "scheme p = scheme r"
    by (auto simp: urlparse_def split: sum.splits if_splits)
  from urlsplit_scheme [OF r(1)] n have "scheme r = []"
    by (simp add: split_scheme_def clean_scheme_def)
  with r(2) assms(2) show False by simp
qed

lemma uses_relative_netloc: "s \<in> set uses_relative \<Longrightarrow> s \<in> set uses_netloc"
  by (auto simp: uses_relative_def uses_netloc_def)

lemma urljoin_absolute:
  assumes p: "urlparse lib u [] = Inr p" "scheme p \<noteq> []" "netloc p \<noteq> []"
    and b: "b = [] \<or> urlparse lib b [] = Inr pb"
  shows "urljoin lib b u = Inr u \<or> urljoin lib b u = Inr (urlunparse p)"
proof (cases "b = []")
  case True
  then show ?thesis by (simp add: urljoin_def)
next
  case False
  with b have pb: "urlparse lib b [] = Inr pb" by simp
  have "u \<noteq> []"
    using urlparse_scheme [OF p(1,2)] by (auto simp: has_scheme_def clean_url_def)
  moreover have "urlparse lib u (scheme pb) = Inr p"
    using urlparse_default_scheme [OF urlparse_scheme [OF p(1,2)], of lib "scheme pb" "[]"] p(1)
    by simp
  ultimately show ?thesis
    using False pb p(3) uses_relative_netloc [of "scheme p"]
    by (auto simp: urljoin_def)
qed


text \<open>
  C6 says that resolving an URL that is already absolute against any base URL returns it
  unchanged. \<open>urljoin\<close> parses an absolute URL of the scheme of the base URL and writes it
  again, which drops an empty fragment and turns the scheme to lower case: the link
  \<open>https://example.com/#\<close> is recorded as \<open>https://example.com/\<close>, and the image source
  \<open>HTTPS://cdn.example.com/a.png\<close> as \<open>https://cdn.example.com/a.png\<close>.
\<close>

theorem resolution_of_absolute_url_counterexample:
  "is_absolute_src ''https://example.com/#''
   \<and> urljoin simple_stdlib ''https://example.com/'' ''https://example.com/#''
     = Inr ''https://example.com/''
   \<and> extract_links_info simple_stdlib
       [Tag ''a'' [(''href'', ''https://example.com/#'')] [NavigableString ''top'']]
       ''https://example.com/''
     = Inr \<lparr>total_links = 1,
            internal_links = [\<lparr>href = ''https://example.com/'', link_text = ''top''\<rparr>],
            external_links = [], internal_count = 1, external_count = 0\<rparr>
   \<and> wa_extract_images_info simple_stdlib
       [Tag ''img'' [(''src'', ''HTTPS://cdn.example.com/a.png'')] []] ''https://example.com/''
     = Inr ([\<lparr>src = Some ''https://cdn.example.com/a.png'', alt = [], width = None,
              height = None\<rparr>], 1)"
  by code_simp

lemma image_step_absolute:
  assumes "get img ''src'' = Some s" "is_absolute_src s"
  shows "image_step lib b img
           = Inr \<lparr>src = Some s, alt = (case get img ''alt'' of None \<Rightarrow> [] | Some a \<Rightarrow> a),
                  width = get img ''width'', height = get img ''height''\<rparr>"
    and "wa_image_step lib b img
           = Inr \<lparr>src = Some s, alt = (case get img ''alt'' of None \<Rightarrow> [] | Some a \<Rightarrow> a),
                  width = get img ''width'', height = get img ''height''\<rparr>"
  using assms by (simp_all add: image_step_def wa_image_step_def Let_def)

text \<open>
  C6 as amended: the image extractors leave unchanged, for every base URL, every \<open>src\<close>
  that starts with \<open>http://\<close>, \<open>https://\<close> or \<open>//\<close>. \<open>urljoin\<close>, which resolves the links
  and the other image sources, returns unchanged every URL that has a scheme and a
  netloc and is written the way \<open>urlunparse\<close> writes it (\<open>urlunparse(urlparse(u)) = u\<close>),
  for every base URL that is empty or parses; any URL with a scheme and a netloc is
  returned either unchanged or as \<open>urlunparse\<close> writes it.
\<close>

theorem resolution_of_absolute_url:
  "(get img ''src'' = Some s \<and> is_absolute_src s \<longrightarrow>
      (\<exists>i. image_step lib b img = Inr i \<and> src i = Some s)
      \<and> (\<exists>i. wa_image_step lib b img = Inr i \<and> src i = Some s))
   \<and> (urlparse lib u [] = Inr p \<and> scheme p \<noteq> [] \<and> netloc p \<noteq> []
       \<and> (b = [] \<or> urlparse lib b [] = Inr pb) \<longrightarrow>
      (urljoin lib b u = Inr u \<or> urljoin lib b u = Inr (urlunparse p))
      \<and> (urlunparse p = u \<longrightarrow> urljoin lib b u = Inr u))"
proof (intro conjI impI)
  assume "get img ''src'' = Some s \<and> is_absolute_src s"
  then show "\<exists>i. image_step lib b img = Inr i \<and> src i = Some s"
    "\<exists>i. wa_image_step lib b img = Inr i \<and> src i = Some s"
    using image_step_absolute [of img s lib b] by simp_all
next
  assume a: "urlparse lib u [] = Inr p \<and> scheme p \<noteq> [] \<and> netloc p \<noteq> []
       \<and> (b = [] \<or> urlparse lib b [] = Inr pb)"
  then show j: "urljoin lib b u = Inr u \<or> urljoin lib b u = Inr (urlunparse p)"
    using urljoin_absolute [of lib u p b pb] by blast
  assume "urlunparse p = u"
  with j show "urljoin lib b u = Inr u" by auto
qed

theorem resolution_of_absolute_url_witness:
  "get (Tag ''img'' [(''src'', ''//cdn.example.com/a.png'')] []) ''src''
     = Some ''//cdn.example.com/a.png''
   \<and> is_absolute_src ''//cdn.example.com/a.png''
   \<and> image_step simple_stdlib ''https://example.com/blog/''
       (Tag ''img'' [(''src'', ''//cdn.example.com/a.png'')] [])
     = Inr \<lparr>src = Some ''//cdn.example.com/a.png'', alt = [], width = None, height = None\<rparr>
   \<and> urlparse simple_stdlib ''https://other.com/page?x=1#top'' []
     = Inr \<lparr>scheme = ''https'', netloc = ''other.com'', path = ''/page'', query = ''x=1'',
            fragment = ''top'', params = []\<rparr>
   \<and> urlunparse \<lparr>scheme = ''https'', netloc = ''other.com'', path = ''/page'', query = ''x=1'',
                  fragment = ''top'', params = []\<rparr>
     = ''https://other.com/page?x=1#top''
   \<and> urlparse simple_stdlib ''https://example.com/blog/'' []
     = Inr \<lparr>scheme = ''https'', netloc = ''example.com'', path = ''/blog/'', query = [],
            fragment = [], params = []\<rparr>
   \<and> urljoin simple_stdlib ''https://example.com/blog/'' ''https://other.com/page?x=1#top''
     = Inr ''https://other.com/page?x=1#top''"
proof -
  let ?img = "Tag ''img'' [(''src'', ''//cdn.example.com/a.png'')] []"
  let ?p = "\<lparr>scheme = ''https'', netloc = ''other.com'', path = ''/page'', query = ''x=1'',
            fragment = ''top'', params = []\<rparr>"
  let ?pb = "\<lparr>scheme = ''https'', netloc = ''example.com'', path = ''/blog/'', query = [],
            fragment = [], params = []\<rparr>"
  have e1: "get ?img ''src'' = Some ''//cdn.example.com/a.png''"
    by simp
  have e2: "is_absolute_src ''//cdn.example.com/a.png''"
    by code_simp
  have e3: "image_step simple_stdlib ''https://example.com/blog/'' ?img
     = Inr \<lparr>src = Some ''//cdn.example.com/a.png'', alt = [], width = None, height = None\<rparr>"
    by code_simp
  have e4: "urlparse simple_stdlib ''https://other.com/page?x=1#top'' [] = Inr ?p"
    by code_simp
  have e5: "urlunparse ?p = ''https://other.com/page?x=1#top''"
    by code_simp
  have e6: "urlparse simple_stdlib ''https://example.com/blog/'' [] = Inr ?pb"
    by code_simp
  from resolution_of_absolute_url
         [of ?img "''//cdn.example.com/a.png''" simple_stdlib "''https://example.com/blog/''"
             "''https://other.com/page?x=1#top''" ?p ?pb]
       e1 e2 e3 e4 e5 e6
  show ?thesis by simp
qed

end
